theory Spec2Isabelle
  imports Main
begin

section \<open>Python strings\<close>

text \<open>
  A \<^typ>\<open>string\<close> stands for a Python \<^verbatim>\<open>str\<close> all of whose code points are
  below 256: one \<^typ>\<open>char\<close> per code point, so \<^const>\<open>length\<close> is Python's
  \<^verbatim>\<open>len\<close>. The character classes below are those of CPython on that range.
\<close>

definition py_isspace :: "char \<Rightarrow> bool" where
  \<comment> \<open>\<^verbatim>\<open>str.isspace\<close> on one character; also the class \<^verbatim>\<open>\s\<close> of \<^verbatim>\<open>re\<close>\<close>
  "py_isspace c =
     (let n = (of_char c :: nat)
      in (9 \<le> n \<and> n \<le> 13) \<or> (28 \<le> n \<and> n \<le> 32) \<or> n = 133 \<or> n = 160)"

definition py_isword :: "char \<Rightarrow> bool" where
  \<comment> \<open>the class \<^verbatim>\<open>\w\<close> of \<^verbatim>\<open>re\<close>: alphanumeric or underscore\<close>
  "py_isword c =
     (let n = (of_char c :: nat)
      in (48 \<le> n \<and> n \<le> 57) \<or> (65 \<le> n \<and> n \<le> 90) \<or> n = 95 \<or> (97 \<le> n \<and> n \<le> 122)
         \<or> n = 170 \<or> n = 178 \<or> n = 179 \<or> n = 181 \<or> n = 185 \<or> n = 186
         \<or> (188 \<le> n \<and> n \<le> 190) \<or> (192 \<le> n \<and> n \<le> 214)
         \<or> (216 \<le> n \<and> n \<le> 246) \<or> (248 \<le> n \<and> n \<le> 255))"

definition py_isdigit :: "char \<Rightarrow> bool" where
  \<comment> \<open>the class \<^verbatim>\<open>\d\<close> of \<^verbatim>\<open>re\<close>\<close>
  "py_isdigit c = (let n = (of_char c :: nat) in 48 \<le> n \<and> n \<le> 57)"

definition lower_char :: "char \<Rightarrow> char" where
  "lower_char c =
     (let n = (of_char c :: nat)
      in if (65 \<le> n \<and> n \<le> 90) \<or> (192 \<le> n \<and> n \<le> 214) \<or> (216 \<le> n \<and> n \<le> 222)
         then char_of (n + 32) else c)"

definition lower :: "string \<Rightarrow> string" where
  \<comment> \<open>\<^verbatim>\<open>str.lower\<close>\<close>
  "lower s = map lower_char s"

definition lstrip :: "string \<Rightarrow> string" where
  "lstrip s = dropWhile py_isspace s"

definition rstrip :: "string \<Rightarrow> string" where
  "rstrip s = rev (dropWhile py_isspace (rev s))"

definition strip :: "string \<Rightarrow> string" where
  \<comment> \<open>\<^verbatim>\<open>str.strip\<close> without arguments\<close>
  "strip s = rstrip (lstrip s)"

fun startswith :: "string \<Rightarrow> string \<Rightarrow> bool" where
  \<comment> \<open>\<^verbatim>\<open>s.startswith(p)\<close>\<close>
  "startswith s [] = True"
| "startswith [] (p # ps) = False"
| "startswith (c # cs) (p # ps) = (c = p \<and> startswith cs ps)"

fun contains :: "string \<Rightarrow> string \<Rightarrow> bool" where
  \<comment> \<open>\<^verbatim>\<open>sub in s\<close> on strings: \<open>sub\<close> occurs in \<open>s\<close> as a contiguous piece\<close>
  "contains [] sub = (sub = [])"
| "contains (c # cs) sub = (startswith (c # cs) sub \<or> contains cs sub)"

section \<open>Regular expressions as \<^verbatim>\<open>re.search\<close> uses them\<close>

text \<open>
  The patterns of the source use literals, \<^verbatim>\<open>.\<close>, \<^verbatim>\<open>\s\<close>, the assertions \<^verbatim>\<open>\b\<close>
  and \<^verbatim>\<open>^\<close>, grouping with alternatives, and the quantifiers \<^verbatim>\<open>?\<close>, \<^verbatim>\<open>*\<close> and
  \<^verbatim>\<open>+\<close>. The source only asks whether \<^verbatim>\<open>re.search\<close> finds a match, so the
  matcher computes every position at which a match starting at a given position can end;
  a position is the character before the cursor (\<open>None\<close> at the start of the text)
  and the text after it.
\<close>

datatype rx =
    Chr char
  | Dot
  | Spc
  | Bnd
  | Bol
  | Eps
  | Seq rx rx
  | Alt rx rx
  | Opt rx
  | Star rx
  | Plus rx

type_synonym rpos = "char option \<times> string"

fun one_char :: "(char \<Rightarrow> bool) \<Rightarrow> rpos \<Rightarrow> rpos list" where
  "one_char P (p, []) = []"
| "one_char P (p, c # cs) = (if P c then [(Some c, cs)] else [])"

fun word_before :: "rpos \<Rightarrow> bool" where
  "word_before (None, s) = False"
| "word_before (Some c, s) = py_isword c"

fun word_after :: "rpos \<Rightarrow> bool" where
  "word_after (p, []) = False"
| "word_after (p, c # cs) = py_isword c"

fun star_iter :: "nat \<Rightarrow> (rpos \<Rightarrow> rpos list) \<Rightarrow> rpos \<Rightarrow> rpos list" where
  \<comment> \<open>zero or more rounds of \<open>f\<close>; a round that consumes nothing adds no position, so
      as many rounds as characters are left suffice\<close>
  "star_iter 0 f st = [st]"
| "star_iter (Suc n) f st =
     st # concat (map (star_iter n f)
                      (filter (\<lambda>st'. length (snd st') < length (snd st)) (f st)))"

definition star_from :: "(rpos \<Rightarrow> rpos list) \<Rightarrow> rpos \<Rightarrow> rpos list" where
  "star_from f st = star_iter (length (snd st)) f st"

primrec rx_ends :: "rx \<Rightarrow> rpos \<Rightarrow> rpos list" where
  "rx_ends (Chr a) = one_char (\<lambda>c. c = a)"
| "rx_ends Dot = one_char (\<lambda>c. c \<noteq> CHR ''\<newline>'')"
| "rx_ends Spc = one_char py_isspace"
| "rx_ends Bnd = (\<lambda>st. if word_before st \<noteq> word_after st then [st] else [])"
| "rx_ends Bol = (\<lambda>st. if fst st = None then [st] else [])"
| "rx_ends Eps = (\<lambda>st. [st])"
| "rx_ends (Seq a b) = (\<lambda>st. concat (map (rx_ends b) (rx_ends a st)))"
| "rx_ends (Alt a b) = (\<lambda>st. rx_ends a st @ rx_ends b st)"
| "rx_ends (Opt a) = (\<lambda>st. rx_ends a st @ [st])"
| "rx_ends (Star a) = star_from (rx_ends a)"
| "rx_ends (Plus a) = (\<lambda>st. concat (map (star_from (rx_ends a)) (rx_ends a st)))"

fun positions :: "char option \<Rightarrow> string \<Rightarrow> rpos list" where
  "positions p [] = [(p, [])]"
| "positions p (c # cs) = (p, c # cs) # positions (Some c) cs"

definition re_search :: "rx \<Rightarrow> string \<Rightarrow> bool" where
  \<comment> \<open>\<^verbatim>\<open>bool(re.search(pattern, s))\<close>\<close>
  "re_search r s = list_ex (\<lambda>st. rx_ends r st \<noteq> []) (positions None s)"

definition lit :: "string \<Rightarrow> rx" where
  "lit cs = foldr (\<lambda>c r. Seq (Chr c) r) cs Eps"

definition seqs :: "rx list \<Rightarrow> rx" where
  "seqs rs = foldr Seq rs Eps"

fun alts :: "rx list \<Rightarrow> rx" where
  "alts [] = lit []"
| "alts [r] = r"
| "alts (r # rs) = Alt r (alts rs)"

definition words :: "string list \<Rightarrow> rx" where
  \<comment> \<open>a group of literal alternatives, \<^verbatim>\<open>(a|b|c)\<close>\<close>
  "words ws = alts (map lit ws)"

definition sp1 :: rx where
  \<comment> \<open>\<^verbatim>\<open>\s+\<close>\<close>
  "sp1 = Plus Spc"

definition any_search :: "rx list \<Rightarrow> string \<Rightarrow> bool" where
  \<comment> \<open>\<^verbatim>\<open>any(re.search(p, s) for p in patterns)\<close>\<close>
  "any_search ps s = list_ex (\<lambda>p. re_search p s) ps"

section \<open>Intent classifiers (rag\_core.py)\<close>

definition solved_patterns :: "rx list" where
  \<open>solved_patterns =
    [ \<comment> \<open>\<^verbatim>\<open>\b(solved|fixed|resolved|ok|okay|worked|working)\b\<close>\<close>
      seqs [Bnd, words [''solved'', ''fixed'', ''resolved'', ''ok'', ''okay'', ''worked'',
                        ''working''], Bnd],
      \<comment> \<open>\<^verbatim>\<open>\bit\s+works\b\<close>\<close>
      seqs [Bnd, lit ''it'', sp1, lit ''works'', Bnd],
      \<comment> \<open>\<^verbatim>\<open>\bproblem\s+(is\s+)?gone\b\<close>\<close>
      seqs [Bnd, lit ''problem'', sp1, Opt (seqs [lit ''is'', sp1]), lit ''gone'', Bnd],
      \<comment> \<open>\<^verbatim>\<open>\tissue\s+fixed\b\<close>: the escape \<^verbatim>\<open>\t\<close> is a tab character\<close>
      seqs [Chr (CHR 0x09), lit ''issue'', sp1, lit ''fixed'', Bnd],
      \<comment> \<open>\<^verbatim>\<open>\bthat\s+(did|fixed)\s+(it|the\s+trick)\b\<close>\<close>
      seqs [Bnd, lit ''that'', sp1, words [''did'', ''fixed''], sp1,
            alts [lit ''it'', seqs [lit ''the'', sp1, lit ''trick'']], Bnd],
      \<comment> \<open>\<^verbatim>\<open>^(yes|yeah|yep|affirmative)\b\<close>\<close>
      seqs [Bol, words [''yes'', ''yeah'', ''yep'', ''affirmative''], Bnd],
      \<comment> \<open>\<^verbatim>\<open>(great|perfect|excellent|awesome|thanks|thank\s+you).*\b(it|that)\s+worked\<close>\<close>
      seqs [alts [lit ''great'', lit ''perfect'', lit ''excellent'', lit ''awesome'',
                  lit ''thanks'', seqs [lit ''thank'', sp1, lit ''you'']],
            Star Dot, Bnd, words [''it'', ''that''], sp1, lit ''worked''],
      \<comment> \<open>\<^verbatim>\<open>all\s+good\s+now\<close>\<close>
      seqs [lit ''all'', sp1, lit ''good'', sp1, lit ''now''],
      \<comment> \<open>\<^verbatim>\<open>running\s+smoothly\<close>\<close>
      seqs [lit ''running'', sp1, lit ''smoothly'']
    ]\<close>

definition apos :: rx where
  \<comment> \<open>\<^verbatim>\<open>\'?\<close>\<close>
  "apos = Opt (Chr (CHR 0x27))"

definition negation_patterns :: "rx list" where
  \<open>negation_patterns =
    [ \<comment> \<open>\<^verbatim>\<open>\b(no(t)?|didn\'?t|doesn\'?t|hasn\'?t|haven\'?t|isn\'?t|aren\'t|can\'?t|couldn\'?t|still|yet)\b\<close>\<close>
      seqs [Bnd,
            alts [seqs [lit ''no'', Opt (lit ''t'')],
                  seqs [lit ''didn'', apos, lit ''t''],
                  seqs [lit ''doesn'', apos, lit ''t''],
                  seqs [lit ''hasn'', apos, lit ''t''],
                  seqs [lit ''haven'', apos, lit ''t''],
                  seqs [lit ''isn'', apos, lit ''t''],
                  lit ''aren't'',
                  seqs [lit ''can'', apos, lit ''t''],
                  seqs [lit ''couldn'', apos, lit ''t''],
                  lit ''still'',
                  lit ''yet''],
            Bnd]
    ]\<close>

definition is_problem_solved :: "string \<Rightarrow> bool" where
  \<comment> \<open>inside the negation branch a text that is neither "no" nor "nope" and has a solved
      wording returns nothing, and control falls through to the test of the solved
      patterns\<close>
  "is_problem_solved text =
     (let text_lower = strip (lower text) in
      if any_search negation_patterns text_lower then
        (if text_lower \<in> set [''no'', ''nope''] then False
         else if \<not> any_search solved_patterns text_lower then False
         else if any_search solved_patterns text_lower then True
         else False)
      else if any_search solved_patterns text_lower then True
      else False)"

definition not_solved_patterns :: "rx list" where
  \<open>not_solved_patterns =
    [ \<comment> \<open>\<^verbatim>\<open>\bnot\s+(solved|fixed|working|resolved|helping)\b\<close>\<close>
      seqs [Bnd, lit ''not'', sp1,
            words [''solved'', ''fixed'', ''working'', ''resolved'', ''helping''], Bnd],
      \<comment> \<open>\<^verbatim>\<open>\b(didn\'?t|doesn\'?t|did\s+not|does\s+not)\s+(work|help|fix|solve|change)\b\<close>\<close>
      seqs [Bnd,
            alts [seqs [lit ''didn'', apos, lit ''t''],
                  seqs [lit ''doesn'', apos, lit ''t''],
                  seqs [lit ''did'', sp1, lit ''not''],
                  seqs [lit ''does'', sp1, lit ''not'']],
            sp1, words [''work'', ''help'', ''fix'', ''solve'', ''change''], Bnd],
      \<comment> \<open>\<^verbatim>\<open>\bno\s+(change|effect|luck|joy|difference)\b\<close>\<close>
      seqs [Bnd, lit ''no'', sp1,
            words [''change'', ''effect'', ''luck'', ''joy'', ''difference''], Bnd],
      \<comment> \<open>\<^verbatim>\<open>\bstill\s+(have|having|seeing)\s+(the\s+|an\s+)?(problem|issue|error)\b\<close>\<close>
      seqs [Bnd, lit ''still'', sp1, words [''have'', ''having'', ''seeing''], sp1,
            Opt (alts [seqs [lit ''the'', sp1], seqs [lit ''an'', sp1]]),
            words [''problem'', ''issue'', ''error''], Bnd],
      \<comment> \<open>\<^verbatim>\<open>\b(same|persistent)\s+(problem|issue)\b\<close>\<close>
      seqs [Bnd, words [''same'', ''persistent''], sp1, words [''problem'', ''issue''], Bnd],
      \<comment> \<open>\<^verbatim>\<open>^(no|nope|negative)\b\<close>\<close>
      seqs [Bol, words [''no'', ''nope'', ''negative''], Bnd],
      \<comment> \<open>\<^verbatim>\<open>didn\'?t\s+(do\s+)?(anything|it)\<close>\<close>
      seqs [lit ''didn'', apos, lit ''t'', sp1, Opt (seqs [lit ''do'', sp1]),
            words [''anything'', ''it'']],
      \<comment> \<open>\<^verbatim>\<open>that\s+wasn\'?t\s+it\<close>\<close>
      seqs [lit ''that'', sp1, lit ''wasn'', apos, lit ''t'', sp1, lit ''it'']
    ]\<close>

definition is_problem_not_solved :: "string \<Rightarrow> bool" where
  "is_problem_not_solved text =
     (let text_lower = strip (lower text) in
      if is_problem_solved text_lower then False
      else any_search not_solved_patterns text_lower)"

definition help_patterns :: "rx list" where
  \<open>help_patterns =
    [ \<comment> \<open>\<^verbatim>\<open>how\s+(to|do\s+i)\s+(fix|solve|repair|troubleshoot)\<close>\<close>
      seqs [lit ''how'', sp1, alts [lit ''to'', seqs [lit ''do'', sp1, lit ''i'']], sp1,
            words [''fix'', ''solve'', ''repair'', ''troubleshoot'']],
      \<comment> \<open>\<^verbatim>\<open>\b(fix|solve|repair|troubleshoot|diagnose)\b\<close>\<close>
      seqs [Bnd, words [''fix'', ''solve'', ''repair'', ''troubleshoot'', ''diagnose''], Bnd],
      \<comment> \<open>\<^verbatim>\<open>\b(issue|problem|error|fault|failure)\s+with\b\<close>\<close>
      seqs [Bnd, words [''issue'', ''problem'', ''error'', ''fault'', ''failure''], sp1,
            lit ''with'', Bnd],
      \<comment> \<open>\<^verbatim>\<open>is\s+(not\s+working|failing|broken|down|acting\s+up)\<close>\<close>
      seqs [lit ''is'', sp1,
            alts [seqs [lit ''not'', sp1, lit ''working''], lit ''failing'', lit ''broken'',
                  lit ''down'', seqs [lit ''acting'', sp1, lit ''up'']]],
      \<comment> \<open>\<^verbatim>\<open>\b(help|assist|advice|guidance)\s+(me\s+)?(with|on)?\b\<close>\<close>
      seqs [Bnd, words [''help'', ''assist'', ''advice'', ''guidance''], sp1,
            Opt (seqs [lit ''me'', sp1]), Opt (words [''with'', ''on'']), Bnd],
      \<comment> \<open>\<^verbatim>\<open>what\s+to\s+do\s+(about|if|when)\<close>\<close>
      seqs [lit ''what'', sp1, lit ''to'', sp1, lit ''do'', sp1,
            words [''about'', ''if'', ''when'']],
      \<comment> \<open>\<^verbatim>\<open>can\s+you\s+help\<close>\<close>
      seqs [lit ''can'', sp1, lit ''you'', sp1, lit ''help'']
    ]\<close>

definition is_asking_for_help :: "string \<Rightarrow> bool" where
  "is_asking_for_help text = (let text_lower = lower text in any_search help_patterns text_lower)"

section \<open>Answer sufficiency (rag\_core.py)\<close>

definition MIN_SUFFICIENT_LENGTH :: nat where
  "MIN_SUFFICIENT_LENGTH = 50"

definition insufficient_patterns :: "rx list" where
  \<open>insufficient_patterns =
    [ lit ''couldn't find specific details'',
      lit ''could not find information'',
      lit ''do not have specific information'',
      lit ''information is not available'',
      \<comment> \<open>\<^verbatim>\<open>based on the provided documents?.?.? i can't\<close>\<close>
      seqs [lit ''based on the provided document'', Opt (Chr CHR ''s''), Opt Dot, Opt Dot,
            lit '' i can't''],
      lit ''unable to provide specific steps'',
      lit ''no mention of'',
      \<comment> \<open>\<^verbatim>\<open>documents? don't cover\<close>\<close>
      seqs [lit ''document'', Opt (Chr CHR ''s''), lit '' don't cover''],
      lit ''general information'',
      lit ''i can only provide general advice'',
      lit ''it might be'',
      lit ''possible causes could include'',
      lit ''recommend consulting the manual'',
      lit ''refer to standard procedures'',
      lit ''i cannot answer'',
      lit ''don't have enough information'',
      \<comment> \<open>\<^verbatim>\<open>therefore,? i don't know\<close>\<close>
      seqs [lit ''therefore'', Opt (Chr CHR '',''), lit '' i don't know''],
      \<comment> \<open>\<^verbatim>\<open>i am sorry,? but the provided documents?\<close>\<close>
      seqs [lit ''i am sorry'', Opt (Chr CHR '',''), lit '' but the provided document'',
            Opt (Chr CHR ''s'')],
      \<comment> \<open>\<^verbatim>\<open>documents? provided do not contain information\<close>\<close>
      seqs [lit ''document'', Opt (Chr CHR ''s''),
            lit '' provided do not contain information''],
      lit ''based on the information i have'',
      lit ''i don't have access to information about that'',
      lit ''my knowledge base doesn't include details on'',
      lit ''unable to find relevant information in the context'',
      lit ''the context provided does not answer'',
      \<comment> \<open>\<^verbatim>\<open>the retrieved documents? seem unrelated\<close>\<close>
      seqs [lit ''the retrieved document'', Opt (Chr CHR ''s''), lit '' seem unrelated''],
      lit ''i lack the specific data''
    ]\<close>

fun no_pattern_found :: "rx list \<Rightarrow> string \<Rightarrow> bool" where
  \<comment> \<open>the loop over the patterns: the first one found returns \<open>False\<close>, the end of the
      list returns \<open>True\<close>\<close>
  "no_pattern_found [] text_lower = True"
| "no_pattern_found (pattern # rest) text_lower =
     (if re_search pattern text_lower then False else no_pattern_found rest text_lower)"

definition is_rag_answer_sufficient :: "string \<Rightarrow> bool" where
  \<comment> \<open>the test \<^verbatim>\<open>len(answer_text) < MIN_SUFFICIENT_LENGTH\<close> of the source only writes
      a log line (its \<^verbatim>\<open>return False\<close> is commented out), so both of its branches
      continue with the patterns\<close>
  "is_rag_answer_sufficient answer_text =
     (if answer_text = [] then False
      else if length answer_text < MIN_SUFFICIENT_LENGTH
           then no_pattern_found insufficient_patterns (lower answer_text)
           else no_pattern_found insufficient_patterns (lower answer_text))"

definition quoted :: "string \<Rightarrow> string" where
  \<comment> \<open>the text between two apostrophes\<close>
  "quoted s = [CHR 0x27] @ s @ [CHR 0x27]"

section \<open>Dictionaries and numbers as text\<close>

text \<open>
  A Python \<^verbatim>\<open>dict\<close> with string keys is an association list in insertion order
  (the order in which \<^verbatim>\<open>for key in d\<close> visits the keys); a lookup takes the first
  entry of the key.
\<close>

type_synonym 'v pydict = "(string \<times> 'v) list"

definition dict_get :: "string pydict \<Rightarrow> string \<Rightarrow> string \<Rightarrow> string" where
  \<comment> \<open>\<^verbatim>\<open>d.get(key, default)\<close>\<close>
  "dict_get d key dflt = (case map_of d key of None \<Rightarrow> dflt | Some v \<Rightarrow> v)"

definition digit_char :: "nat \<Rightarrow> char" where
  "digit_char d = char_of (48 + d)"

function str_nat :: "nat \<Rightarrow> string" where
  "str_nat n = (if n < 10 then [digit_char n] else str_nat (n div 10) @ [digit_char (n mod 10)])"
  by pat_completeness auto
termination
  by (relation "measure (\<lambda>n. n)") auto

definition str_int :: "int \<Rightarrow> string" where
  \<comment> \<open>\<^verbatim>\<open>str(i)\<close>, as an f-string formats an integer\<close>
  "str_int i = (if i < 0 then CHR ''-'' # str_nat (nat (- i)) else str_nat (nat i))"

section \<open>The problem catalogue (rag\_core.py)\<close>

type_synonym problem_data = "string pydict"
type_synonym problem_catalog = "problem_data pydict"

definition MAX_SOLUTION_STEPS :: int where
  "MAX_SOLUTION_STEPS = 3"

subsection \<open>detect\_problem\<close>

fun word_runs :: "string \<Rightarrow> string \<Rightarrow> string list" where
  \<comment> \<open>the maximal runs of word characters, left to right; \<open>cur\<close> is the run being read\<close>
  "word_runs cur [] = (if cur = [] then [] else [cur])"
| "word_runs cur (c # cs) =
     (if py_isword c then word_runs (cur @ [c]) cs
      else (if cur = [] then [] else [cur]) @ word_runs [] cs)"

definition findall_words3 :: "string \<Rightarrow> string list" where
  \<comment> \<open>\<^verbatim>\<open>re.findall(r'\b\w{3,}\b', s)\<close>: between two word boundaries the pattern can only
      take a whole run of word characters, so the matches are the runs of length 3 or more\<close>
  "findall_words3 s = filter (\<lambda>w. 3 \<le> length w) (word_runs [] s)"

fun exact_match :: "string \<Rightarrow> string list \<Rightarrow> string option" where
  \<comment> \<open>first loop: the first key equal to the text, case-insensitively\<close>
  "exact_match text_lower [] = None"
| "exact_match text_lower (problem_key # keys) =
     (if lower problem_key = text_lower then Some problem_key
      else exact_match text_lower keys)"

fun substring_pass :: "string \<Rightarrow> string list \<Rightarrow> string option \<times> nat \<Rightarrow> string option \<times> nat" where
  \<comment> \<open>second loop; the state is \<open>(best_match, max_overlap)\<close>\<close>
  "substring_pass text_lower [] acc = acc"
| "substring_pass text_lower (problem_key # keys) (best_match, max_overlap) =
     substring_pass text_lower keys
       (if contains text_lower (lower problem_key) \<and> length problem_key > max_overlap
        then (Some problem_key, length problem_key) else (best_match, max_overlap))"

fun keyword_pass :: "string set \<Rightarrow> string list \<Rightarrow> string option \<times> nat \<Rightarrow> string option \<times> nat" where
  \<comment> \<open>third loop, same state\<close>
  "keyword_pass text_keywords [] acc = acc"
| "keyword_pass text_keywords (problem_key # keys) (best_match, max_overlap) =
     keyword_pass text_keywords keys
       (let problem_keywords = set (findall_words3 (lower problem_key));
            common_keywords = text_keywords \<inter> problem_keywords
        in if card common_keywords \<ge> 2 \<and> card common_keywords > max_overlap
           then (Some problem_key, card common_keywords) else (best_match, max_overlap))"

definition truthy :: "string option \<Rightarrow> bool" where
  \<comment> \<open>Python's truth value of an optional string: neither \<^verbatim>\<open>None\<close> nor empty\<close>
  "truthy v = (case v of None \<Rightarrow> False | Some s \<Rightarrow> s \<noteq> [])"

definition detect_problem :: "string \<Rightarrow> problem_catalog \<Rightarrow> string option" where
  "detect_problem text problems =
     (if problems = [] \<or> text = [] then None
      else
        let text_lower = strip (lower text) in
        case exact_match text_lower (map fst problems) of
          Some problem_key \<Rightarrow> Some problem_key
        | None \<Rightarrow>
            let (best_match, max_overlap) =
                  substring_pass text_lower (map fst problems) (None, 0)
            in if \<not> truthy best_match then
                 let text_keywords = set (findall_words3 text_lower) in
                 if card text_keywords < 2 then None
                 else fst (keyword_pass text_keywords (map fst problems)
                             (best_match, max_overlap))
               else best_match)"

subsection \<open>get\_next\_solution\_step\<close>

definition step_key :: "int \<Rightarrow> string" where
  \<comment> \<open>\<^verbatim>\<open>f'solution_step_{next_step_index}'\<close>\<close>
  "step_key i = ''solution_step_'' @ str_int i"

function next_step_loop ::
  "problem_data \<Rightarrow> string \<Rightarrow> int \<Rightarrow> int option \<times> string option \<times> string option" where
  \<comment> \<open>the \<^verbatim>\<open>while\<close> loop and the \<^verbatim>\<open>return\<close> after it\<close>
  "next_step_loop problem_data cause next_step_index =
     (if next_step_index \<le> MAX_SOLUTION_STEPS then
        let step_text = strip (dict_get problem_data (step_key next_step_index) [])
        in if step_text \<noteq> [] then (Some next_step_index, Some step_text, Some cause)
           else next_step_loop problem_data cause (next_step_index + 1)
      else (None, None, Some cause))"
  by pat_completeness auto
termination
  by (relation "measure (\<lambda>(d, c, i). nat (MAX_SOLUTION_STEPS + 1 - i))") auto

definition get_next_solution_step ::
  "problem_catalog \<Rightarrow> string \<Rightarrow> int \<Rightarrow> int option \<times> string option \<times> string option" where
  \<comment> \<open>the first argument is the module's global \<^verbatim>\<open>problem_dict\<close>; an unknown problem
      and an empty record are both falsy\<close>
  "get_next_solution_step problem_dict problem_name current_step_index =
     (case map_of problem_dict problem_name of
        None \<Rightarrow> (None, None, None)
      | Some problem_data \<Rightarrow>
          if problem_data = [] then (None, None, None)
          else
            let cause = dict_get problem_data ''possible_cause'' ''N/A'';
                next_step_index = current_step_index + 1
            in next_step_loop problem_data cause next_step_index)"

definition step_text :: "problem_data \<Rightarrow> int \<Rightarrow> string" where
  \<comment> \<open>the text of step \<open>i\<close> as the loop reads it: empty when the record has no such key\<close>
  "step_text problem_data i = strip (dict_get problem_data (step_key i) [])"

subsection \<open>load\_problem\_data\_dict\<close>

fun dict_set :: "'v pydict \<Rightarrow> string \<Rightarrow> 'v \<Rightarrow> 'v pydict" where
  \<comment> \<open>\<^verbatim>\<open>d[key] = value\<close>: a known key keeps its place, a new key goes to the end\<close>
  "dict_set [] key v = [(key, v)]"
| "dict_set ((k, w) # d) key v = (if k = key then (k, v) # d else (k, w) # dict_set d key v)"

definition problem_entry_of :: "string pydict \<Rightarrow> problem_data" where
  \<comment> \<open>the record built from one row: the cause and the steps 1 to \<open>MAX_SOLUTION_STEPS\<close>,
      each stripped; a cell that the row lacks reads as the empty text\<close>
  "problem_entry_of row =
     (''possible_cause'', strip (dict_get row ''possible_cause'' []))
     # map (\<lambda>i. (step_key i, strip (dict_get row (step_key i) []))) [1..MAX_SOLUTION_STEPS]"

fun load_rows :: "string pydict list \<Rightarrow> problem_catalog \<Rightarrow> problem_catalog" where
  \<comment> \<open>the loop over the rows of the table; the state is \<open>problem_lookup\<close>\<close>
  "load_rows [] problem_lookup = problem_lookup"
| "load_rows (row # rows) problem_lookup =
     (let problem_key = strip (dict_get row ''problem'' []) in
      if problem_key \<noteq> [] then
        let problem_entry = problem_entry_of row;
            has_at_least_one_step = list_ex (\<lambda>(k, v). v \<noteq> []) (tl problem_entry)
        in if has_at_least_one_step
           then load_rows rows (dict_set problem_lookup problem_key problem_entry)
           else load_rows rows problem_lookup
      else load_rows rows problem_lookup)"

definition load_problem_data_dict ::
  "(string list \<times> string pydict list) option \<Rightarrow> problem_catalog" where
  \<comment> \<open>the argument is the table as read from the file, its column names and its rows, or
      \<open>None\<close> when the file is missing or reading it raises\<close>
  "load_problem_data_dict table =
     (case table of
        None \<Rightarrow> []
      | Some (columns, rows) \<Rightarrow>
          if \<not> (''problem'' \<in> set columns \<and> ''solution_step_1'' \<in> set columns) then []
          else load_rows rows [])"

definition catalog_wf :: "problem_catalog \<Rightarrow> bool" where
  \<comment> \<open>what the loader guarantees of a catalogue: one entry per name, no empty name, no
      empty record, every stored text stripped\<close>
  "catalog_wf catalog =
     (distinct (map fst catalog)
      \<and> (\<forall>(key, d) \<in> set catalog. key \<noteq> [] \<and> d \<noteq> [] \<and> (\<forall>(k, v) \<in> set d. strip v = v)))"

section \<open>Formatting web results (rag\_core.py)\<close>

type_synonym search_result = "string pydict"

definition WEB_SEARCH_RESULT_MAX_CHARS :: int where
  "WEB_SEARCH_RESULT_MAX_CHARS = 3000"

definition separator :: string where
  "separator = ''\<newline>\<newline>---\<newline>\<newline>''"

definition entry_head :: "nat \<Rightarrow> search_result \<Rightarrow> string" where
  \<comment> \<open>\<^verbatim>\<open>f"Result {i+1}:\nSource: {url}\nTitle: {title}\nContent: "\<close>\<close>
  "entry_head i res =
     ''Result '' @ str_int (int i + 1) @ '':\<newline>Source: '' @ dict_get res ''url'' ''N/A''
       @ ''\<newline>Title: '' @ dict_get res ''title'' ''N/A'' @ ''\<newline>Content: ''"

definition short_entry :: "nat \<Rightarrow> search_result \<Rightarrow> string" where
  \<comment> \<open>\<^verbatim>\<open>f"Result {i+1}:\nSource: {url}\nTitle: {title}"\<close>\<close>
  "short_entry i res =
     ''Result '' @ str_int (int i + 1) @ '':\<newline>Source: '' @ dict_get res ''url'' ''N/A''
       @ ''\<newline>Title: '' @ dict_get res ''title'' ''N/A''"

definition result_content :: "search_result \<Rightarrow> string" where
  \<comment> \<open>\<^verbatim>\<open>res.get('content', '').strip()\<close>\<close>
  "result_content res = strip (dict_get res ''content'' [])"

definition full_entry :: "nat \<Rightarrow> search_result \<Rightarrow> string" where
  "full_entry i res = entry_head i res @ result_content res"

definition truncated_entry :: "int \<Rightarrow> nat \<Rightarrow> search_result \<Rightarrow> string" where
  \<comment> \<open>the first entry when it is longer than the budget\<close>
  "truncated_entry max_chars i res =
     (let available_chars = max_chars - int (length (entry_head i res));
          truncated_content =
            (if available_chars > 3 then take (nat available_chars) (result_content res) @ ''...''
             else [])
      in entry_head i res @ truncated_content)"

fun format_loop ::
  "int \<Rightarrow> (nat \<times> search_result) list \<Rightarrow> string list \<Rightarrow> int \<Rightarrow> string list" where
  \<comment> \<open>the \<^verbatim>\<open>for\<close> loop over \<^verbatim>\<open>enumerate(search_results)\<close>; the state is
      \<open>formatted\<close> and \<open>total_chars\<close>, a \<^verbatim>\<open>break\<close> returns \<open>formatted\<close>\<close>
  "format_loop max_chars [] formatted total_chars = formatted"
| "format_loop max_chars ((i, res) # rest) formatted total_chars =
     (let entry = full_entry i res;
          entry_len = int (length entry);
          sep_len = int (length separator)
      in if total_chars = 0 then
           if entry_len \<le> max_chars
           then format_loop max_chars rest (formatted @ [entry]) (total_chars + entry_len)
           else formatted @ [truncated_entry max_chars i res]
         else if total_chars + sep_len + entry_len \<le> max_chars
           then format_loop max_chars rest (formatted @ [entry])
                  (total_chars + (sep_len + entry_len))
         else
           let short_len = int (length (short_entry i res))
           in if total_chars + sep_len + short_len \<le> max_chars
              then formatted @ [short_entry i res]
              else formatted)"

fun join :: "string \<Rightarrow> string list \<Rightarrow> string" where
  \<comment> \<open>\<^verbatim>\<open>sep.join(parts)\<close>\<close>
  "join sep [] = []"
| "join sep [x] = x"
| "join sep (x # y # ys) = x @ sep @ join sep (y # ys)"

definition format_web_results_for_llm :: "search_result list \<Rightarrow> int \<Rightarrow> string" where
  "format_web_results_for_llm search_results max_chars =
     (if search_results = [] then ''No web search results found.''
      else join separator (format_loop max_chars (enumerate 0 search_results) [] 0))"

section \<open>Data model (models.py)\<close>

record Message =
  role :: string
  content :: string

record TroubleshootingState =
  is_active :: bool
  current_problem :: "string option"
  current_step :: int

definition TroubleshootingState_new :: TroubleshootingState where
  \<comment> \<open>\<^verbatim>\<open>TroubleshootingState()\<close>: the defaults of the three fields\<close>
  "TroubleshootingState_new = \<lparr>is_active = False, current_problem = None, current_step = 0\<rparr>"

record ChatRequest =
  prompt :: string
  history :: "Message list"
  troubleshooting_state :: TroubleshootingState
  force_web_search :: bool

record ChatResponse =
  answer :: string
  response_history :: "Message list"
  response_state :: TroubleshootingState
  offer_web_search :: bool
  final_answer_source :: string

section \<open>Collaborators, exceptions and the call log\<close>

text \<open>
  An exception value carries what the handlers of the source read from it: the name of
  its type, its text, whether it is an instance of \<^verbatim>\<open>ResourceExhausted\<close> or of
  \<^verbatim>\<open>ImportError\<close>, and its \<^verbatim>\<open>__cause__\<close>. Only instances of \<^verbatim>\<open>Exception\<close> are
  modelled.
\<close>

datatype exc =
  Exc (type_name: string) (exc_str: string) (is_ResourceExhausted: bool)
      (is_ImportError: bool) (exc_cause: "exc option")

text \<open>
  What the language model returns to \<^verbatim>\<open>llm.ainvoke\<close>: an object with a \<^verbatim>\<open>content\<close>
  attribute, a plain string, or something else, of which only \<^verbatim>\<open>str(...)\<close> is read
  (\<open>None\<close> when that conversion raises).
\<close>

datatype llm_response = WithContent string | PlainStr string | OtherObject "string option"

type_synonym rag_response = "string pydict"

record rag_chain_t =
  has_ainvoke :: bool
  ainvoke :: "string \<Rightarrow> Message list \<Rightarrow> exc + rag_response"
  invoke :: "string \<Rightarrow> Message list \<Rightarrow> exc + rag_response"

text \<open>The module globals of rag\_core.py that a turn reads.\<close>

record globals =
  problem_dict :: problem_catalog
  tavily_tool :: "(string \<Rightarrow> exc + search_result list) option"
  llm :: "(string \<Rightarrow> exc + llm_response) option"
  rag_chain :: "rag_chain_t option"

text \<open>
  Every call that leaves the engine is written to a log, in order, so that a statement
  that a collaborator was not invoked is a statement about the log.
\<close>

datatype call =
    ChainAinvoke string
  | ChainInvoke string
  | WebSearchAndSynthesis string
  | TavilyInvoke string
  | LlmAinvoke string

definition is_web_call :: "call \<Rightarrow> bool" where
  "is_web_call c =
     (case c of WebSearchAndSynthesis q \<Rightarrow> True | TavilyInvoke q \<Rightarrow> True
      | LlmAinvoke q \<Rightarrow> True | ChainAinvoke q \<Rightarrow> False | ChainInvoke q \<Rightarrow> False)"

section \<open>Retrieval and web search (rag\_core.py)\<close>

definition rag_question :: "string \<Rightarrow> string" where
  \<open>rag_question user_prompt =
     ''You are an expert Ship Maintenance AI Assistant.\<newline>''
     @ ''                Use the retrieved internal documents to answer the use''
     @ ''r's question accurately and concisely.\<newline>''
     @ ''                If the documents don't contain the answer, state that ''
     @ ''clearly.\<newline>''
     @ ''                Prioritize safety procedures and standard operating pr''
     @ ''otocols mentioned in the documents.\<newline>''
     @ ''\<newline>''
     @ ''                User Question: ''
     @ user_prompt
     @ ''\<newline>''
     @ ''                ''\<close>

definition invoke_rag_chain ::
  "rag_chain_t option \<Rightarrow> string \<Rightarrow> Message list \<Rightarrow> call list
   \<Rightarrow> (exc + rag_response) \<times> call list" where
  \<comment> \<open>\<^verbatim>\<open>ainvoke\<close> first; any exception there falls back to the synchronous \<^verbatim>\<open>invoke\<close>,
      whose exception leaves the function. Without a chain object the attribute access
      of the fallback raises.\<close>
  "invoke_rag_chain chain user_prompt hist log =
     (let contextual_prompt = rag_question user_prompt in
      case chain of
        None \<Rightarrow>
          (Inl (Exc ''AttributeError''
                    (quoted ''NoneType'' @ '' object has no attribute '' @ quoted ''invoke'')
                    False False None), log)
      | Some ch \<Rightarrow>
          if has_ainvoke ch then
            (case ainvoke ch contextual_prompt hist of
               Inr response \<Rightarrow> (Inr response, log @ [ChainAinvoke contextual_prompt])
             | Inl e \<Rightarrow>
                 (invoke ch contextual_prompt hist,
                  log @ [ChainAinvoke contextual_prompt, ChainInvoke contextual_prompt]))
          else (invoke ch contextual_prompt hist, log @ [ChainInvoke contextual_prompt]))"

definition synthesis_prompt :: "string \<Rightarrow> string \<Rightarrow> string" where
  \<open>synthesis_prompt query formatted_results =
     ''You are an expert AI Assistant specializing **exclusively in Ship Main''
     @ ''tenance and Troubleshooting**.\<newline>''
     @ ''        A user asked the following question related to a ship system:\<newline>''
     @ ''        "''
     @ query
     @ ''"\<newline>''
     @ ''        An initial search of the internal knowledge base did not provi''
     @ ''de a sufficiently specific or actionable answer.\<newline>''
     @ ''        Your task is to analyze the following web search results and s''
     @ ''ynthesize a *concise, actionable, and relevant* answer **specifically ''
     @ ''for a maritime/ship context**.\<newline>''
     @ ''        **Instructions for Synthesis:**\<newline>''
     @ ''        1.  **Filter Relevance:** Discard any information clearly not ''
     @ ''applicable to ships, marine environments, or industrial equipment typi''
     @ ''cally found on vessels. Focus on results mentioning specific ship comp''
     @ ''onents, marine standards, or common maritime issues.\<newline>''
     @ ''        2.  **Extract Actions:** Identify potential diagnostic steps, ''
     @ ''repair procedures, or safety precautions relevant to the user's query.''
     @ '' If steps are found, list them clearly (e.g., using numbered points). ''
     @ ''**Select the most credible and actionable solution path if multiple op''
     @ ''tions exist.**\<newline>''
     @ ''        3.  **Synthesize, Don't List:** Do not just list snippets from''
     @ '' the search results. Combine the relevant information into a coherent ''
     @ ''response.\<newline>''
     @ ''        4.  **Prioritize Safety:** If the query involves potentially h''
     @ ''azardous systems (electrical, hydraulic, fuel, high pressure), emphasi''
     @ ''ze safety precautions mentioned in the results or add standard warning''
     @ ''s (e.g., "Ensure the system is de-energized/depressurized before work,''
     @ ''" "Follow lock-out/tag-out procedures").\<newline>''
     @ ''        5.  **Acknowledge Source:** Begin your response by clearly sta''
     @ ''ting that the information is based on external web search results (e.g''
     @ ''., "Based on information gathered from web sources related to ship sys''
     @ ''tems...").\<newline>''
     @ ''        6.  **Advise Caution:** Conclude by advising the user to consu''
     @ ''lt the official ship/equipment manuals or a qualified marine engineer/''
     @ ''technician, especially if the problem persists or the task is complex.''
     @ ''\<newline>''
     @ ''        7.  **Be Concise:** Provide the necessary information without ''
     @ ''unnecessary jargon or lengthy explanations, unless explaining a critic''
     @ ''al concept.\<newline>''
     @ ''        --- WEB SEARCH RESULTS ---\<newline>''
     @ ''        ''
     @ formatted_results
     @ ''\<newline>''
     @ ''        --- END WEB SEARCH RESULTS ---\<newline>''
     @ ''        Synthesized Answer (following all instructions above) for the ''
     @ ''ship maintenance query "''
     @ query
     @ ''":\<newline>''
     @ ''        ''\<close>


definition search_error_reply :: "exc \<Rightarrow> string \<times> string" where
  \<comment> \<open>the two handlers of perform\_web\_search\_and\_synthesis\<close>
  "search_error_reply e =
     (if is_ImportError e then (''An internal setup error occurred (ImportError).'', ''Error'')
      else
        let error_msg =
              (if contains (lower (exc_str e)) ''api key''
               then ''There seems to be an issue with the API key required for web search or processing.''
               else ''Sorry, I encountered an error ('' @ type_name e
                    @ '') while trying to search the web or process the results for ship information.'')
        in (error_msg, ''Error''))"

definition response_text :: "llm_response \<Rightarrow> string" where
  "response_text r =
     (case r of
        WithContent c \<Rightarrow> strip c
      | PlainStr t \<Rightarrow> strip t
      | OtherObject None \<Rightarrow> []
      | OtherObject (Some t) \<Rightarrow> strip t)"

definition perform_web_search_and_synthesis ::
  "globals \<Rightarrow> string \<Rightarrow> call list \<Rightarrow> (exc + string \<times> string) \<times> call list" where
  "perform_web_search_and_synthesis g query log0 =
     (let log = log0 @ [WebSearchAndSynthesis query] in
      case tavily_tool g of
        None \<Rightarrow> (Inr (''Web search is currently disabled.'', ''Web Search Disabled''), log)
      | Some tavily_invoke \<Rightarrow>
          (case llm g of
             None \<Rightarrow>
               (Inr (''Sorry, the AI model is not available to process web search results.'',
                     ''Error''), log)
           | Some llm_ainvoke \<Rightarrow>
               (case tavily_invoke query of
                  Inl e \<Rightarrow> (Inr (search_error_reply e), log @ [TavilyInvoke query])
                | Inr search_results \<Rightarrow>
                    if search_results = [] then
                      (Inr (''I searched the web, but couldn't find any relevant results for your query.'',
                            ''Web Search No Results''), log @ [TavilyInvoke query])
                    else
                      let formatted_results =
                            format_web_results_for_llm search_results WEB_SEARCH_RESULT_MAX_CHARS;
                          p = synthesis_prompt query formatted_results;
                          log2 = log @ [TavilyInvoke query, LlmAinvoke p]
                      in (case llm_ainvoke p of
                            Inl e \<Rightarrow> (Inr (search_error_reply e), log2)
                          | Inr enhanced_answer_response \<Rightarrow>
                              let final_answer = response_text enhanced_answer_response
                              in if final_answer = [] then
                                   (Inr (''I processed the web search results, but could not synthesize a specific answer based on them.'',
                                         ''Web Search Synthesis Failed (Empty)''), log2)
                                 else (Inr (final_answer, ''Web Search Synthesis (Ship Focused)''),
                                       log2)))))"

section \<open>The turn controller (main.py)\<close>

definition get_ready_state :: "globals \<Rightarrow> bool" where
  \<comment> \<open>the dependency of the route: without a chain or a model the request is answered
      with status 503 and \<^verbatim>\<open>chat_endpoint\<close> does not run\<close>
  "get_ready_state g = (rag_chain g \<noteq> None \<and> llm g \<noteq> None)"

subsection \<open>Choosing the strategy\<close>

text \<open>
  The local variables that the first half of the non-forced branch assigns. A variable
  that a path never assigns is \<open>Unbound\<close>; reading it raises \<^verbatim>\<open>UnboundLocalError\<close>.
\<close>

datatype 'a local = Unbound | Bound 'a

record strategy_vars =
  response_strategy :: string
  needs_rag_call :: bool
  contextual_prompt :: string
  problem_name :: "string local"
  current_step_local :: "int local"
  detected_problem :: "string option local"

definition unbound_local :: "string \<Rightarrow> exc" where
  "unbound_local name =
     Exc ''UnboundLocalError''
         (''cannot access local variable '' @ quoted name
          @ '' where it is not associated with a value'')
         False False None"

definition active_problem :: "TroubleshootingState \<Rightarrow> string option" where
  \<comment> \<open>the value of \<^verbatim>\<open>ts_state.is_active and ts_state.current_problem\<close> when it is
      truthy: the name of the problem\<close>
  "active_problem ts_state =
     (if is_active ts_state \<and> truthy (current_problem ts_state)
      then current_problem ts_state else None)"

definition troubleshooting_context :: "string \<Rightarrow> int \<Rightarrow> string \<Rightarrow> string" where
  "troubleshooting_context name step user_prompt =
     ''Context: Currently troubleshooting ship problem '' @ quoted name
     @ '' (last suggested step was '' @ str_int step @ ''). User asks: '' @ user_prompt"

definition select_strategy :: "globals \<Rightarrow> ChatRequest \<Rightarrow> strategy_vars" where
  "select_strategy g chat_request =
     (let ts_state = troubleshooting_state chat_request;
          v0 = \<lparr>response_strategy = ''rag'', needs_rag_call = True,
                contextual_prompt = prompt chat_request, problem_name = Unbound,
                current_step_local = Unbound, detected_problem = Unbound\<rparr>
      in case active_problem ts_state of
           Some name \<Rightarrow>
             (let v1 = v0\<lparr>problem_name := Bound name,
                          current_step_local := Bound (current_step ts_state)\<rparr>
              in if is_problem_solved (prompt chat_request)
                 then v1\<lparr>response_strategy := ''solved'', needs_rag_call := False\<rparr>
                 else if is_problem_not_solved (prompt chat_request)
                 then v1\<lparr>response_strategy := ''next_step'', needs_rag_call := False\<rparr>
                 else v1\<lparr>contextual_prompt :=
                            troubleshooting_context name (current_step ts_state)
                              (prompt chat_request),
                          response_strategy := ''rag_troubleshooting_context'',
                          needs_rag_call := True\<rparr>)
         | None \<Rightarrow>
             if \<not> is_active ts_state \<and> problem_dict g \<noteq> [] then
               (let detected = detect_problem (prompt chat_request) (problem_dict g);
                    v1 = v0\<lparr>detected_problem := Bound detected\<rparr>
                in if truthy detected \<and> is_asking_for_help (prompt chat_request)
                   then v1\<lparr>response_strategy := ''start_troubleshooting'',
                            needs_rag_call := False\<rparr>
                   else v1)
             else v0)"

subsection \<open>Carrying the strategy out\<close>

text \<open>
  The outcome of a branch is the value of the four variables of the response:
  \<^verbatim>\<open>assistant_response_content\<close>, \<^verbatim>\<open>final_answer_source\<close>, \<^verbatim>\<open>ts_state\<close> and
  \<^verbatim>\<open>offer_web_search\<close>.
\<close>

type_synonym outcome = "string \<times> string \<times> TroubleshootingState \<times> bool"

definition initial_content :: string where
  "initial_content = ''Sorry, something went wrong processing your request.''"

definition solved_outcome :: "string \<Rightarrow> outcome" where
  "solved_outcome name =
     (''Excellent! Glad to hear the issue with **'' @ quoted name
        @ ''** is resolved. How else can I help?'',
      ''Troubleshooting Solved'', TroubleshootingState_new, False)"

definition steps_exhausted_outcome :: "globals \<Rightarrow> string \<Rightarrow> outcome" where
  \<comment> \<open>the \<^verbatim>\<open>else\<close> branch of the next-step strategy\<close>
  "steps_exhausted_outcome g name =
     (''We've tried all the documented steps for **'' @ quoted name
        @ ''**.\<newline>\<newline>I couldn't resolve it with the internal guide.''
        @ (if tavily_tool g \<noteq> None
           then ''\<newline>\<newline>Would you like me to search the web for additional insights?''
           else []),
      ''Troubleshooting End'', TroubleshootingState_new, tavily_tool g \<noteq> None)"

definition next_step_outcome ::
  "globals \<Rightarrow> TroubleshootingState \<Rightarrow> string \<Rightarrow> int \<Rightarrow> outcome" where
  \<comment> \<open>\<^verbatim>\<open>if next_step_num and next_step_text\<close>: a number other than 0 and a non-empty
      text\<close>
  "next_step_outcome g ts_state name step =
     (case get_next_solution_step (problem_dict g) name step of
        (Some next_step_num, Some next_step_text, cause) \<Rightarrow>
          if next_step_num \<noteq> 0 \<and> next_step_text \<noteq> [] then
            (''Okay, let's try the next step for **'' @ quoted name
               @ ''**:\<newline>\<newline>**Step '' @ str_int next_step_num @ '': '' @ next_step_text
               @ ''**\<newline>\<newline>Please try this and let me know if it solved the problem.'',
             ''Troubleshooting Step'', ts_state\<lparr>current_step := next_step_num\<rparr>, False)
          else steps_exhausted_outcome g name
      | _ \<Rightarrow> steps_exhausted_outcome g name)"

definition no_steps_outcome :: "globals \<Rightarrow> string \<Rightarrow> outcome" where
  "no_steps_outcome g detected =
     (''I found **'' @ quoted detected
        @ ''** in the guide, but there are no specific solution steps listed.''
        @ (if tavily_tool g \<noteq> None
           then ''\<newline>\<newline>Would you like me to search the web?'' else []),
      ''Troubleshooting No Steps'', TroubleshootingState_new, tavily_tool g \<noteq> None)"

definition retrieval_error_outcome :: outcome where
  \<comment> \<open>the branch marked \<^verbatim>\<open>Should not happen if detect_problem worked\<close>\<close>
  "retrieval_error_outcome =
     (''I recognized the problem, but encountered an internal error retrieving the steps.'',
      ''Error'', TroubleshootingState_new, False)"

definition cause_text :: "string option \<Rightarrow> string" where
  \<comment> \<open>\<^verbatim>\<open>f"(Possible Cause: *{cause}*)" if cause and cause != 'N/A' else ""\<close>\<close>
  "cause_text cause =
     (case cause of
        None \<Rightarrow> []
      | Some c \<Rightarrow> if c \<noteq> [] \<and> c \<noteq> ''N/A'' then ''(Possible Cause: *'' @ c @ ''*)'' else [])"

definition start_outcome :: "globals \<Rightarrow> string option \<Rightarrow> outcome" where
  \<comment> \<open>\<^verbatim>\<open>problem_dict.get(detected_problem)\<close> is falsy for a key that is \<^verbatim>\<open>None\<close> or
      unknown and for an empty record\<close>
  "start_outcome g detected_opt =
     (case detected_opt of
        None \<Rightarrow> retrieval_error_outcome
      | Some detected \<Rightarrow>
          (case map_of (problem_dict g) detected of
             Some (entry # entries) \<Rightarrow>
               (case get_next_solution_step (problem_dict g) detected 0 of
                  (Some first_step_num, Some first_step_text, cause) \<Rightarrow>
                    if first_step_num \<noteq> 0 \<and> first_step_text \<noteq> [] then
                      (''Okay, let's start troubleshooting for **'' @ quoted detected
                         @ ''**. '' @ cause_text cause @ ''\<newline>\<newline>**Step ''
                         @ str_int first_step_num @ '': '' @ first_step_text
                         @ ''**\<newline>\<newline>Please perform this step and tell me if it solved the problem.'',
                       ''Troubleshooting Start'',
                       \<lparr>is_active = True, current_problem = Some detected,
                        current_step = first_step_num\<rparr>,
                       False)
                    else no_steps_outcome g detected
                | _ \<Rightarrow> no_steps_outcome g detected)
           | _ \<Rightarrow> retrieval_error_outcome))"

subsection \<open>Retrieval with the quality-based fallback\<close>

fun retry_delay_at :: "string \<Rightarrow> string option" where
  \<comment> \<open>a match of \<^verbatim>\<open>retry_delay {\s*seconds: (\d+)\s*}\<close> at the start of the text, and
      its group; the characters after each greedy run leave one way to match\<close>
  "retry_delay_at t =
     (if startswith t ''retry_delay {'' then
        let t1 = dropWhile py_isspace (drop (length ''retry_delay {'') t) in
        if startswith t1 ''seconds: '' then
          let t2 = drop (length ''seconds: '') t1;
              digits = takeWhile py_isdigit t2;
              t3 = dropWhile py_isspace (dropWhile py_isdigit t2)
          in if digits \<noteq> [] \<and> startswith t3 ''}'' then Some digits else None
        else None
      else None)"

fun retry_delay_search :: "string \<Rightarrow> string option" where
  \<comment> \<open>\<^verbatim>\<open>re.search\<close> of that pattern: the leftmost match\<close>
  "retry_delay_search [] = retry_delay_at []"
| "retry_delay_search (c # cs) =
     (case retry_delay_at (c # cs) of
        Some digits \<Rightarrow> Some digits
      | None \<Rightarrow> retry_delay_search cs)"

definition rate_limited_reply :: "exc \<Rightarrow> string \<times> string" where
  "rate_limited_reply e =
     (let delay_msg =
            (case retry_delay_search (exc_str e) of
               None \<Rightarrow> '' Please try again later.''
             | Some seconds \<Rightarrow> '' Please try again in about '' @ seconds @ '' seconds.'')
      in (''The AI service is temporarily busy due to high demand.'' @ delay_msg,
          ''Error (Rate Limited)''))"

definition caused_by_rate_limit :: "exc \<Rightarrow> bool" where
  \<comment> \<open>\<^verbatim>\<open>isinstance(rag_exc.__cause__, ResourceExhausted)\<close>\<close>
  "caused_by_rate_limit e =
     (case exc_cause e of None \<Rightarrow> False | Some c \<Rightarrow> is_ResourceExhausted c)"

definition retrieval_failure_reply :: "exc \<Rightarrow> string \<times> string" where
  \<comment> \<open>the two \<^verbatim>\<open>except\<close> clauses around the retrieval call; each of their paths sets
      \<^verbatim>\<open>rate_limit_hit_during_rag\<close>\<close>
  "retrieval_failure_reply rag_exc =
     (if is_ResourceExhausted rag_exc then rate_limited_reply rag_exc
      else if is_ResourceExhausted rag_exc then rate_limited_reply rag_exc
      else if caused_by_rate_limit rag_exc then
        (case exc_cause rag_exc of
           Some c \<Rightarrow> rate_limited_reply c
         | None \<Rightarrow> rate_limited_reply rag_exc)
      else
        (''Sorry, an error occurred while retrieving information from the knowledge base (''
           @ type_name rag_exc @ '').'',
         ''Error (RAG Failure)''))"

definition with_note :: "string \<Rightarrow> string \<Rightarrow> string" where
  \<comment> \<open>\<^verbatim>\<open>f"{rag_answer}\n\n_({note})_"\<close>\<close>
  "with_note rag_answer note = rag_answer @ ''\<newline>\<newline>_('' @ note @ '')_''"

definition fallback_reply :: "string \<Rightarrow> exc + string \<times> string \<Rightarrow> string \<times> string" where
  \<comment> \<open>what the turn makes of the result of the web search; the list of the second test
      is \<^verbatim>\<open>["Web Search No Results", ...]\<close>, whose second element is the object
      \<^verbatim>\<open>Ellipsis\<close>, equal to no string\<close>
  \<open>fallback_reply rag_answer result =
     (case result of
        Inr (web_search_answer, web_search_source) \<Rightarrow>
          if web_search_source = ''Web Search Synthesis (Ship Focused)'' \<and> web_search_answer \<noteq> []
          then (web_search_answer, web_search_source)
          else if web_search_source = ''Web Search No Results''
          then ((if rag_answer \<noteq> [] then rag_answer @ ''\<newline>\<newline>'' @ web_search_answer
                 else web_search_answer),
                web_search_source)
          else if web_search_source = ''Error'' \<or> web_search_source = ''Error (Rate Limited)''
          then (if rag_answer \<noteq> []
                then (with_note rag_answer web_search_answer, ''Internal Knowledge (Limited)'')
                else (''I couldn't find information internally. '' @ web_search_answer, ''Error''))
          else ((if rag_answer \<noteq> []
                 then with_note rag_answer
                        (''Internal knowledge was limited. Web search fallback did not produce a usable result [State: ''
                         @ web_search_source @ '']'')
                 else ''I couldn't find information internally, and the web search fallback did not produce a usable result [State: {web_search_source}].''),
                ''Internal Knowledge (Limited)'')
      | Inl web_exc \<Rightarrow>
          (let error_msg = ''An error occurred while initiating the web search (''
                           @ type_name web_exc @ '').''
           in if rag_answer \<noteq> []
              then (with_note rag_answer error_msg, ''Internal Knowledge (Limited)'')
              else (''I couldn't find information internally. '' @ error_msg, ''Error'')))\<close>

definition rag_outcome ::
  "globals \<Rightarrow> ChatRequest \<Rightarrow> string \<Rightarrow> (string \<times> string) \<times> call list" where
  \<comment> \<open>the branch \<^verbatim>\<open>elif needs_rag_call\<close>: the new content and source label, and the
      calls made\<close>
  "rag_outcome g chat_request effective_prompt =
     (case invoke_rag_chain (rag_chain g) effective_prompt (history chat_request) [] of
        (Inl rag_exc, log) \<Rightarrow> (retrieval_failure_reply rag_exc, log)
      | (Inr rag_response, log) \<Rightarrow>
          (let rag_answer = strip (dict_get rag_response ''answer'' []) in
           if rag_answer \<noteq> [] \<and> is_rag_answer_sufficient rag_answer
           then ((rag_answer, ''Internal Knowledge (RAG)''), log)
           else if tavily_tool g \<noteq> None then
             (case perform_web_search_and_synthesis g (prompt chat_request) log of
                (result, log2) \<Rightarrow> (fallback_reply rag_answer result, log2))
           else
             ((if rag_answer \<noteq> []
               then with_note rag_answer
                      ''Internal knowledge was limited, and web search is currently unavailable.''
               else ''I couldn't find specific information in the internal guide, and web search is currently unavailable.'',
               ''Internal Knowledge (Limited)''), log)))"

subsection \<open>The endpoint\<close>

definition regular_processing ::
  "globals \<Rightarrow> ChatRequest \<Rightarrow> (exc + outcome) \<times> call list" where
  \<comment> \<open>the \<^verbatim>\<open>else\<close> branch of \<^verbatim>\<open>if force_web_search\<close>\<close>
  "regular_processing g chat_request =
     (let ts_state = troubleshooting_state chat_request;
          v = select_strategy g chat_request
      in if response_strategy v = ''solved'' then
           (case problem_name v of
              Unbound \<Rightarrow> (Inl (unbound_local ''problem_name''), [])
            | Bound name \<Rightarrow> (Inr (solved_outcome name), []))
         else if response_strategy v = ''next_step'' then
           (case (problem_name v, current_step_local v) of
              (Bound name, Bound step) \<Rightarrow> (Inr (next_step_outcome g ts_state name step), [])
            | (Unbound, _) \<Rightarrow> (Inl (unbound_local ''problem_name''), [])
            | (_, Unbound) \<Rightarrow> (Inl (unbound_local ''current_step''), []))
         else if response_strategy v = ''start_troubleshooting'' then
           (case detected_problem v of
              Unbound \<Rightarrow> (Inl (unbound_local ''detected_problem''), [])
            | Bound detected \<Rightarrow> (Inr (start_outcome g detected), []))
         else if needs_rag_call v then
           (case rag_outcome g chat_request (contextual_prompt v) of
              ((text, source), log) \<Rightarrow> (Inr (text, source, ts_state, False), log))
         else (Inr (initial_content, ''Error'', ts_state, False), []))"

definition forced_web_search ::
  "globals \<Rightarrow> ChatRequest \<Rightarrow> (exc + outcome) \<times> call list" where
  \<comment> \<open>the branch \<^verbatim>\<open>if force_web_search\<close>\<close>
  "forced_web_search g chat_request =
     (if tavily_tool g = None then
        (Inr (''Web search was requested, but it is currently disabled (missing API key or initialization error).'',
              ''Web Search Disabled'', TroubleshootingState_new, False), [])
      else
        (case perform_web_search_and_synthesis g (prompt chat_request) [] of
           (Inl e, log) \<Rightarrow> (Inl e, log)
         | (Inr (text, source), log) \<Rightarrow>
             (Inr (text, source, TroubleshootingState_new, False), log)))"

definition try_block :: "globals \<Rightarrow> ChatRequest \<Rightarrow> (exc + outcome) \<times> call list" where
  \<comment> \<open>the body of the \<^verbatim>\<open>try\<close> statement: an outcome, or the exception that leaves it\<close>
  "try_block g chat_request =
     (if force_web_search chat_request then forced_web_search g chat_request
      else regular_processing g chat_request)"

definition chat_endpoint :: "globals \<Rightarrow> ChatRequest \<Rightarrow> ChatResponse \<times> call list" where
  \<comment> \<open>the body of the route, the catch-all around it and the final assembly\<close>
  "chat_endpoint g chat_request =
     (let updated_history =
            history chat_request @ [\<lparr>role = ''user'', content = prompt chat_request\<rparr>];
          (result, log) = try_block g chat_request;
          (text, source, ts_state, offer) =
            (case result of
               Inr out \<Rightarrow> out
             | Inl e \<Rightarrow>
                 (''An unexpected server error occurred: '' @ type_name e, ''Server Error'',
                  TroubleshootingState_new, False));
          (text2, source2) =
            (if text = []
             then (''Sorry, I encountered an issue and couldn't generate a response.'', ''Error'')
             else (text, source))
      in (\<lparr>answer = text2,
           response_history = updated_history @ [\<lparr>role = ''assistant'', content = text2\<rparr>],
           response_state = ts_state,
           offer_web_search = offer,
           final_answer_source = source2\<rparr>, log))"

definition ts_invariant :: "TroubleshootingState \<Rightarrow> bool" where
  \<comment> \<open>the invariant of the data model: a problem is set exactly in an active state\<close>
  "ts_invariant ts_state = ((current_problem ts_state \<noteq> None) = is_active ts_state)"

section \<open>Example data\<close>

text \<open>
  The catalogue of the scenarios: a problem with two steps, and one whose first step is
  empty and whose second is not.
\<close>

definition example_catalog :: problem_catalog where
  "example_catalog =
     [(''pump overheating'',
       [(''possible_cause'', ''low coolant''),
        (''solution_step_1'', ''Check coolant level''),
        (''solution_step_2'', ''Inspect impeller''),
        (''solution_step_3'', [])]),
      (''Engine will not start'',
       [(''possible_cause'', []),
        (''solution_step_1'', []),
        (''solution_step_2'', ''Check the fuel supply''),
        (''solution_step_3'', [])])]"

definition rate_limit_error :: exc where
  "rate_limit_error =
     Exc ''ResourceExhausted'' ''429 Quota exceeded. retry_delay { seconds: 42 }'' True False None"

definition wrapped_rate_limit_error :: exc where
  "wrapped_rate_limit_error = Exc ''RuntimeError'' ''chain failed'' False False (Some rate_limit_error)"

definition failing_chain :: "exc \<Rightarrow> rag_chain_t" where
  "failing_chain e = \<lparr>has_ainvoke = True, ainvoke = (\<lambda>q h. Inl e), invoke = (\<lambda>q h. Inl e)\<rparr>"

definition answering_chain :: "string \<Rightarrow> rag_chain_t" where
  "answering_chain a =
     \<lparr>has_ainvoke = True, ainvoke = (\<lambda>q h. Inr [(''answer'', a)]),
      invoke = (\<lambda>q h. Inr [(''answer'', a)])\<rparr>"

definition example_search :: "string \<Rightarrow> exc + search_result list" where
  "example_search q =
     Inr [[(''title'', ''Pump care''), (''url'', ''https://example.org/pump''),
           (''content'', ''Keep the strainer clean.'')]]"

definition example_llm :: "string \<Rightarrow> exc + llm_response" where
  "example_llm p = Inr (WithContent ''Based on web sources: clean the strainer.'')"

definition example_globals :: "rag_chain_t \<Rightarrow> bool \<Rightarrow> globals" where
  "example_globals chain web =
     \<lparr>problem_dict = example_catalog,
      tavily_tool = (if web then Some example_search else None),
      llm = Some example_llm,
      rag_chain = Some chain\<rparr>"

definition example_request :: "string \<Rightarrow> TroubleshootingState \<Rightarrow> bool \<Rightarrow> ChatRequest" where
  "example_request text ts_state force =
     \<lparr>prompt = text, history = [], troubleshooting_state = ts_state, force_web_search = force\<rparr>"

definition pump_at_step :: "int \<Rightarrow> TroubleshootingState" where
  "pump_at_step n = \<lparr>is_active = True, current_problem = Some ''pump overheating'', current_step = n\<rparr>"

definition example_results :: "search_result list" where
  "example_results =
     [[(''title'', ''Pump care''), (''url'', ''https://example.org/pump''),
       (''content'', '' Keep the strainer clean. '')],
      [(''title'', ''Impeller wear''), (''content'', ''Inspect the impeller for wear.'')]]"

definition long_result :: search_result where
  \<comment> \<open>one search result whose content alone is longer than the configured budget\<close>
  "long_result =
     [(''title'', ''Pump care''), (''url'', ''https://example.org/pump''),
      (''content'', replicate 3100 CHR ''x'')]"

section \<open>Normal forms of text\<close>

lemma of_char_shift:
  "(of_char c :: nat) \<le> 222 \<Longrightarrow> of_char (char_of (of_char c + 32 :: nat)) = (of_char c + 32 :: nat)"
  by (simp add: of_char_of)

lemma lower_char_idem: "lower_char (lower_char c) = lower_char c"
  using of_char_shift [of c] by (auto simp: lower_char_def Let_def)

lemma isspace_lower_char: "py_isspace (lower_char c) = py_isspace c"
  using of_char_shift [of c] by (auto simp: lower_char_def py_isspace_def Let_def)

lemma lower_idem: "lower (lower s) = lower s"
  by (simp add: lower_def lower_char_idem)

lemma lower_lstrip: "lower (lstrip s) = lstrip (lower s)"
  by (simp add: lower_def lstrip_def dropWhile_map comp_def isspace_lower_char)

lemma lower_rstrip: "lower (rstrip s) = rstrip (lower s)"
  by (simp add: lower_def rstrip_def dropWhile_map comp_def isspace_lower_char rev_map)

lemma lower_strip: "lower (strip s) = strip (lower s)"
  by (simp add: strip_def lower_lstrip lower_rstrip)

lemma rstrip_idem: "rstrip (rstrip s) = rstrip s"
  by (simp add: rstrip_def)

lemma rstrip_split: "rstrip s @ rev (takeWhile py_isspace (rev s)) = s"
  unfolding rstrip_def by (metis rev_append rev_rev_ident takeWhile_dropWhile_id)

lemma hd_rstrip: "rstrip s \<noteq> [] \<Longrightarrow> hd (rstrip s) = hd s"
  using rstrip_split [of s] by (metis hd_append2)

lemma lstrip_rstrip_lstrip: "lstrip (rstrip (lstrip s)) = rstrip (lstrip s)"
proof (cases "rstrip (lstrip s)")
  case Nil
  then show ?thesis by (simp add: lstrip_def)
next
  case (Cons c cs)
  then have ne: "lstrip s \<noteq> []"
    by (auto simp: rstrip_def)
  then have "\<not> py_isspace (hd (lstrip s))"
    unfolding lstrip_def by (simp add: hd_dropWhile)
  moreover have "hd (rstrip (lstrip s)) = hd (lstrip s)"
    using Cons hd_rstrip [of "lstrip s"] by simp
  ultimately have "\<not> py_isspace c"
    using Cons by simp
  then show ?thesis
    using Cons by (simp add: lstrip_def)
qed

lemma strip_idem: "strip (strip s) = strip s"
  by (simp add: strip_def lstrip_rstrip_lstrip rstrip_idem)

lemma strip_lower_normal: "strip (lower (strip (lower s))) = strip (lower s)"
  by (simp add: lower_strip lower_idem strip_idem)

section \<open>The solved and not-solved classifiers\<close>

lemma is_problem_solved_normal: "is_problem_solved (strip (lower text)) = is_problem_solved text"
  by (simp add: is_problem_solved_def strip_lower_normal)

text \<open>
  C3. On the three texts of the claim: \<^verbatim>\<open>is_problem_solved("no")\<close> is false and
  \<^verbatim>\<open>is_problem_solved("it is fixed now")\<close> is true, as the claim says; but
  \<^verbatim>\<open>is_problem_solved("it's not fixed yet")\<close> is true, where the claim says false: the
  negation is found, the text is neither "no" nor "nope", the word "fixed" is a solved
  wording, so the negation branch does not return and the solved patterns decide.
\<close>

theorem is_problem_solved_examples:
  "is_problem_solved ''no'' = False
   \<and> is_problem_solved ''it is fixed now'' = True
   \<and> is_problem_solved ''it's not fixed yet'' = True"
  by code_simp

text \<open>
  C4. For every text, when \<open>is_problem_solved\<close> is true \<open>is_problem_not_solved\<close> is
  false: the two classifiers are never both true.
\<close>

theorem solved_excludes_not_solved:
  "is_problem_solved text \<Longrightarrow> \<not> is_problem_not_solved text"
  by (simp add: is_problem_not_solved_def is_problem_solved_normal)

theorem solved_excludes_not_solved_witness:
  "is_problem_solved ''it is fixed now'' \<and> \<not> is_problem_not_solved ''it is fixed now''"
proof -
  have h: "is_problem_solved ''it is fixed now''"
    by code_simp
  from solved_excludes_not_solved [OF h] h show ?thesis
    by simp
qed

section \<open>The sufficiency judge\<close>

lemma no_pattern_found_iff: "no_pattern_found ps t = (\<not> any_search ps t)"
  by (induction ps) (auto simp: any_search_def)

text \<open>
  C7. The sufficiency judge is false on the empty text, false whenever one of the
  insufficiency patterns is found in the lower-cased text, and true for every non-empty
  text in which none is found, whatever its length: the length test changes nothing.
\<close>

theorem is_rag_answer_sufficient_spec:
  "is_rag_answer_sufficient [] = False
   \<and> (any_search insufficient_patterns (lower answer_text)
        \<longrightarrow> is_rag_answer_sufficient answer_text = False)
   \<and> (answer_text \<noteq> [] \<and> \<not> any_search insufficient_patterns (lower answer_text)
        \<longrightarrow> is_rag_answer_sufficient answer_text = True)"
  by (simp add: is_rag_answer_sufficient_def no_pattern_found_iff)

theorem is_rag_answer_sufficient_spec_witness:
  "any_search insufficient_patterns (lower ''I don't have enough information about that system.'')
   \<and> is_rag_answer_sufficient ''I don't have enough information about that system.'' = False
   \<and> length ''Replace the fuel filter.'' < MIN_SUFFICIENT_LENGTH
   \<and> \<not> any_search insufficient_patterns (lower ''Replace the fuel filter.'')
   \<and> is_rag_answer_sufficient ''Replace the fuel filter.'' = True
   \<and> is_rag_answer_sufficient ''Step 1: Replace the fuel filter. Step 2: Bleed the line.'' = True"
proof -
  have a: "any_search insufficient_patterns
             (lower ''I don't have enough information about that system.'')"
    by code_simp
  have b: "\<not> any_search insufficient_patterns (lower ''Replace the fuel filter.'')"
    by code_simp
  have c: "\<not> any_search insufficient_patterns
               (lower ''Step 1: Replace the fuel filter. Step 2: Bleed the line.'')"
    by code_simp
  have l: "length ''Replace the fuel filter.'' < MIN_SUFFICIENT_LENGTH"
    by (simp add: MIN_SUFFICIENT_LENGTH_def)
  from is_rag_answer_sufficient_spec [of "''I don't have enough information about that system.''"]
       is_rag_answer_sufficient_spec [of "''Replace the fuel filter.''"]
       is_rag_answer_sufficient_spec
         [of "''Step 1: Replace the fuel filter. Step 2: Bleed the line.''"]
       a b c l
  show ?thesis by simp
qed

section \<open>Problem detection\<close>

lemma exact_match_mem: "exact_match t ks = Some k \<Longrightarrow> k \<in> set ks"
  by (induction ks) (auto split: if_splits)

lemma substring_pass_mem:
  "fst (substring_pass t ks acc) = Some k \<Longrightarrow> fst acc = Some k \<or> k \<in> set ks"
proof (induction ks arbitrary: acc)
  case Nil
  then show ?case by simp
next
  case (Cons a ks)
  obtain b m where acc: "acc = (b, m)" by (cases acc)
  from Cons.prems Cons.IH show ?case
    unfolding acc by (fastforce split: if_splits)
qed

lemma keyword_pass_mem:
  "fst (keyword_pass kw ks acc) = Some k \<Longrightarrow> fst acc = Some k \<or> k \<in> set ks"
proof (induction ks arbitrary: acc)
  case Nil
  then show ?case by simp
next
  case (Cons a ks)
  obtain b m where acc: "acc = (b, m)" by (cases acc)
  from Cons.prems Cons.IH show ?case
    unfolding acc by (fastforce simp: Let_def split: if_splits)
qed

lemma detect_problem_mem:
  assumes "detect_problem text problems = Some k"
  shows "k \<in> fst ` set problems"
proof -
  let ?keys = "map fst problems"
  let ?t = "strip (lower text)"
  show ?thesis
  proof (cases "exact_match ?t ?keys")
    case (Some k')
    with assms have "k' = k"
      by (simp add: detect_problem_def split: if_splits)
    with Some show ?thesis
      using exact_match_mem [of ?t ?keys k] by simp
  next
    case None
    obtain b m where sp: "substring_pass ?t ?keys (None, 0) = (b, m)"
      by (cases "substring_pass ?t ?keys (None, 0)")
    show ?thesis
    proof (cases "truthy b")
      case True
      with assms None sp have "b = Some k"
        by (simp add: detect_problem_def split: if_splits)
      with sp substring_pass_mem [of ?t ?keys "(None, 0)" k] show ?thesis
        by simp
    next
      case False
      with assms None sp
      have kp: "fst (keyword_pass (set (findall_words3 ?t)) ?keys (b, m)) = Some k"
        by (simp add: detect_problem_def Let_def split: if_splits)
      from keyword_pass_mem [OF kp] have "b = Some k \<or> k \<in> set ?keys"
        by simp
      moreover have "b = Some k \<Longrightarrow> k \<in> set ?keys"
        using sp substring_pass_mem [of ?t ?keys "(None, 0)" k] by simp
      ultimately show ?thesis by auto
    qed
  qed
qed

text \<open>
  C10. For every text and every catalogue, \<open>detect_problem\<close> returns nothing or a key of
  that catalogue, which therefore looks up successfully; on the empty text and on the
  empty catalogue it returns nothing.
\<close>

theorem detect_problem_returns_key:
  "(detect_problem text problems = None
    \<or> (\<exists>k. detect_problem text problems = Some k \<and> k \<in> fst ` set problems
            \<and> map_of problems k \<noteq> None))
   \<and> detect_problem [] problems = None
   \<and> detect_problem text [] = None"
proof -
  have "k \<in> fst ` set problems \<and> map_of problems k \<noteq> None"
    if "detect_problem text problems = Some k" for k
    using detect_problem_mem [OF that] by (simp add: map_of_eq_None_iff)
  then have "detect_problem text problems = None
    \<or> (\<exists>k. detect_problem text problems = Some k \<and> k \<in> fst ` set problems
            \<and> map_of problems k \<noteq> None)"
    by (cases "detect_problem text problems") auto
  then show ?thesis
    by (simp add: detect_problem_def)
qed

theorem detect_problem_returns_key_witness:
  "detect_problem ''my engine does not start'' example_catalog = Some ''Engine will not start''
   \<and> ''Engine will not start'' \<in> fst ` set example_catalog
   \<and> detect_problem ''PUMP OVERHEATING '' example_catalog = Some ''pump overheating''
   \<and> detect_problem ''hello there'' example_catalog = None"
proof -
  have a: "detect_problem ''my engine does not start'' example_catalog
           = Some ''Engine will not start''"
    by code_simp
  have b: "detect_problem ''PUMP OVERHEATING '' example_catalog = Some ''pump overheating''"
    by code_simp
  have c: "detect_problem ''hello there'' example_catalog = None"
    by code_simp
  from detect_problem_returns_key [of "''my engine does not start''" example_catalog] a b c
  show ?thesis by simp
qed

section \<open>The next solution step\<close>

lemma next_step_loop_spec:
  "case next_step_loop d c n of
     (Some i, Some t, c') \<Rightarrow>
        n \<le> i \<and> i \<le> MAX_SOLUTION_STEPS \<and> t = step_text d i \<and> t \<noteq> [] \<and> c' = Some c
        \<and> (\<forall>j. n \<le> j \<and> j < i \<longrightarrow> step_text d j = [])
   | (None, None, c') \<Rightarrow>
        c' = Some c \<and> (\<forall>j. n \<le> j \<and> j \<le> MAX_SOLUTION_STEPS \<longrightarrow> step_text d j = [])
   | _ \<Rightarrow> False"
proof (induction d c n rule: next_step_loop.induct)
  case (1 d c n)
  show ?case
  proof (cases "n \<le> MAX_SOLUTION_STEPS")
    case False
    then show ?thesis by auto
  next
    case le: True
    show ?thesis
    proof (cases "step_text d n = []")
      case False
      with le show ?thesis
        by (auto simp: step_text_def Let_def)
    next
      case True
      with le have eq: "next_step_loop d c n = next_step_loop d c (n + 1)"
        by (simp add: step_text_def Let_def)
      have IH: "case next_step_loop d c (n + 1) of
         (Some i, Some t, c') \<Rightarrow>
            n + 1 \<le> i \<and> i \<le> MAX_SOLUTION_STEPS \<and> t = step_text d i \<and> t \<noteq> [] \<and> c' = Some c
            \<and> (\<forall>j. n + 1 \<le> j \<and> j < i \<longrightarrow> step_text d j = [])
       | (None, None, c') \<Rightarrow>
            c' = Some c \<and> (\<forall>j. n + 1 \<le> j \<and> j \<le> MAX_SOLUTION_STEPS \<longrightarrow> step_text d j = [])
       | _ \<Rightarrow> False"
        using "1.IH" [OF le refl] True by (simp add: step_text_def)
      have ext: "step_text d j = []" if "n \<le> j" "j < n + 1" for j
        using that True by (simp add: order.antisym)
      obtain a b c' where r: "next_step_loop d c (n + 1) = (a, b, c')"
        by (cases "next_step_loop d c (n + 1)")
      show ?thesis
      proof (cases a)
        case None
        with IH r have "b = None" and c': "c' = Some c"
          and all: "\<forall>j. n + 1 \<le> j \<and> j \<le> MAX_SOLUTION_STEPS \<longrightarrow> step_text d j = []"
          by (auto split: option.splits)
        have "step_text d j = []" if "n \<le> j" "j \<le> MAX_SOLUTION_STEPS" for j
          using that all True by (cases "j = n") auto
        with None \<open>b = None\<close> c' show ?thesis
          unfolding eq r by simp
      next
        case (Some i)
        with IH r obtain t where b: "b = Some t"
          by (auto split: option.splits)
        from IH r Some b have f: "n + 1 \<le> i" "i \<le> MAX_SOLUTION_STEPS" "t = step_text d i"
          "t \<noteq> []" "c' = Some c"
          and all: "\<forall>j. n + 1 \<le> j \<and> j < i \<longrightarrow> step_text d j = []"
          by auto
        have "step_text d j = []" if "n \<le> j" "j < i" for j
          using that all True by (cases "j = n") auto
        with f Some b show ?thesis
          unfolding eq r by simp
      qed
    qed
  qed
qed

text \<open>
  C5. For a problem of the catalogue and any current step index, \<open>get_next_solution_step\<close>
  returns the smallest index above the current one, up to the maximum, whose step text is
  not empty, with that text and the possible cause: the empty steps before it are skipped.
  It returns no step, with the cause, exactly when no index above the current one has a
  non-empty text. In particular from index 0 it returns step 2 when step 1 is empty and
  step 2 is not.
\<close>

theorem get_next_solution_step_spec:
  assumes "map_of catalog name = Some problem_data" and "problem_data \<noteq> []"
  shows
    "(case get_next_solution_step catalog name current_step_index of
        (Some i, Some t, cause) \<Rightarrow>
           current_step_index < i \<and> i \<le> MAX_SOLUTION_STEPS
           \<and> t = step_text problem_data i \<and> t \<noteq> []
           \<and> cause = Some (dict_get problem_data ''possible_cause'' ''N/A'')
           \<and> (\<forall>j. current_step_index < j \<and> j < i \<longrightarrow> step_text problem_data j = [])
      | (None, None, cause) \<Rightarrow>
           cause = Some (dict_get problem_data ''possible_cause'' ''N/A'')
           \<and> (\<forall>j. current_step_index < j \<and> j \<le> MAX_SOLUTION_STEPS
                  \<longrightarrow> step_text problem_data j = [])
      | _ \<Rightarrow> False)
     \<and> (step_text problem_data 1 = [] \<and> step_text problem_data 2 \<noteq> []
          \<longrightarrow> get_next_solution_step catalog name 0
              = (Some 2, Some (step_text problem_data 2),
                 Some (dict_get problem_data ''possible_cause'' ''N/A'')))"
proof -
  let ?c = "dict_get problem_data ''possible_cause'' ''N/A''"
  have g: "get_next_solution_step catalog name k = next_step_loop problem_data ?c (k + 1)"
    for k
    using assms by (simp add: get_next_solution_step_def Let_def)
  have A: "case next_step_loop problem_data ?c (current_step_index + 1) of
        (Some i, Some t, cause) \<Rightarrow>
           current_step_index < i \<and> i \<le> MAX_SOLUTION_STEPS
           \<and> t = step_text problem_data i \<and> t \<noteq> []
           \<and> cause = Some ?c
           \<and> (\<forall>j. current_step_index < j \<and> j < i \<longrightarrow> step_text problem_data j = [])
      | (None, None, cause) \<Rightarrow>
           cause = Some ?c
           \<and> (\<forall>j. current_step_index < j \<and> j \<le> MAX_SOLUTION_STEPS
                  \<longrightarrow> step_text problem_data j = [])
      | _ \<Rightarrow> False"
    using next_step_loop_spec [where d = problem_data and c = ?c and n = "current_step_index + 1"]
    by (auto split: prod.splits option.splits)
  have B: "next_step_loop problem_data ?c (0 + 1)
           = (Some 2, Some (step_text problem_data 2), Some ?c)"
    if "step_text problem_data 1 = []" "step_text problem_data 2 \<noteq> []"
    using that by (simp add: step_text_def MAX_SOLUTION_STEPS_def Let_def)
  from A B show ?thesis
    unfolding g by simp
qed

theorem get_next_solution_step_spec_witness:
  "map_of example_catalog ''Engine will not start''
     = Some [(''possible_cause'', []), (''solution_step_1'', []),
             (''solution_step_2'', ''Check the fuel supply''), (''solution_step_3'', [])]
   \<and> get_next_solution_step example_catalog ''Engine will not start'' 0
       = (Some 2, Some ''Check the fuel supply'', Some [])
   \<and> get_next_solution_step example_catalog ''Engine will not start'' 2 = (None, None, Some [])"
proof -
  let ?d = "[(''possible_cause'', []), (''solution_step_1'', []),
             (''solution_step_2'', ''Check the fuel supply''), (''solution_step_3'', [])]"
  have m: "map_of example_catalog ''Engine will not start'' = Some ?d"
    by (simp add: example_catalog_def)
  have ne: "?d \<noteq> []"
    by simp
  have s1: "step_text ?d 1 = []"
    by code_simp
  have s2: "step_text ?d 2 = ''Check the fuel supply''"
    by code_simp
  have e: "get_next_solution_step example_catalog ''Engine will not start'' 2
           = (None, None, Some [])"
    by code_simp
  from get_next_solution_step_spec [OF m ne, of 0] s1 s2 have
    "get_next_solution_step example_catalog ''Engine will not start'' 0
       = (Some 2, Some ''Check the fuel supply'', Some [])"
    by (simp add: dict_get_def)
  with m e show ?thesis
    by simp
qed

section \<open>The response of a turn\<close>

lemma chat_endpoint_log: "snd (chat_endpoint g req) = snd (try_block g req)"
  by (simp add: chat_endpoint_def try_block_def Let_def split: prod.splits sum.splits)

lemma chat_endpoint_state:
  "response_state (fst (chat_endpoint g req)) =
     (case fst (try_block g req) of
        Inr (t, s, ts, off) \<Rightarrow> ts
      | Inl e \<Rightarrow> TroubleshootingState_new)"
  by (simp add: chat_endpoint_def try_block_def Let_def split: prod.splits sum.splits)

lemma chat_endpoint_source:
  "final_answer_source (fst (chat_endpoint g req)) =
     (case fst (try_block g req) of
        Inr (t, s, ts, off) \<Rightarrow> if t = [] then ''Error'' else s
      | Inl e \<Rightarrow> ''Server Error'')"
  by (simp add: chat_endpoint_def try_block_def Let_def split: prod.splits sum.splits)

lemma chat_endpoint_answer:
  "answer (fst (chat_endpoint g req)) =
     (case fst (try_block g req) of
        Inr (t, s, ts, off) \<Rightarrow>
          if t = [] then ''Sorry, I encountered an issue and couldn't generate a response.''
          else t
      | Inl e \<Rightarrow> ''An unexpected server error occurred: '' @ type_name e)"
  by (simp add: chat_endpoint_def try_block_def Let_def split: prod.splits sum.splits)

lemma forced_state:
  "fst (forced_web_search g req) = Inr (t, s, ts, off) \<Longrightarrow> ts = TroubleshootingState_new"
  by (auto simp: forced_web_search_def split: if_splits prod.splits sum.splits)

text \<open>
  C9. In every turn with \<open>force_web_search\<close> the returned troubleshooting state is the
  empty one, whatever the state of the request; and when no web search tool is configured
  the answer is the disabled message with the source label "Web Search Disabled", and no
  collaborator is called.
\<close>

theorem forced_web_search_resets:
  assumes "force_web_search req"
  shows "response_state (fst (chat_endpoint g req)) = TroubleshootingState_new
         \<and> (tavily_tool g = None \<longrightarrow>
              answer (fst (chat_endpoint g req))
                = ''Web search was requested, but it is currently disabled (missing API key or initialization error).''
              \<and> final_answer_source (fst (chat_endpoint g req)) = ''Web Search Disabled''
              \<and> snd (chat_endpoint g req) = [])"
proof -
  have tr: "try_block g req = forced_web_search g req"
    using assms by (simp add: try_block_def)
  have "response_state (fst (chat_endpoint g req)) = TroubleshootingState_new"
    unfolding chat_endpoint_state tr
    using forced_state [of g req]
    by (cases "fst (forced_web_search g req)") auto
  moreover have "answer (fst (chat_endpoint g req))
                = ''Web search was requested, but it is currently disabled (missing API key or initialization error).''
              \<and> final_answer_source (fst (chat_endpoint g req)) = ''Web Search Disabled''
              \<and> snd (chat_endpoint g req) = []" if "tavily_tool g = None"
    unfolding chat_endpoint_answer chat_endpoint_source chat_endpoint_log tr
    using that by (simp add: forced_web_search_def)
  ultimately show ?thesis by blast
qed

theorem forced_web_search_resets_witness:
  "force_web_search (example_request ''search the web'' (pump_at_step 2) True)
   \<and> response_state (fst (chat_endpoint (example_globals (answering_chain ''x'') False)
                        (example_request ''search the web'' (pump_at_step 2) True)))
       = \<lparr>is_active = False, current_problem = None, current_step = 0\<rparr>
   \<and> final_answer_source (fst (chat_endpoint (example_globals (answering_chain ''x'') False)
                        (example_request ''search the web'' (pump_at_step 2) True)))
       = ''Web Search Disabled''
   \<and> snd (chat_endpoint (example_globals (answering_chain ''x'') False)
            (example_request ''search the web'' (pump_at_step 2) True)) = []"
proof -
  have f: "force_web_search (example_request ''search the web'' (pump_at_step 2) True)"
    by (simp add: example_request_def)
  have t: "tavily_tool (example_globals (answering_chain ''x'') False) = None"
    by (simp add: example_globals_def)
  from forced_web_search_resets [OF f, of "example_globals (answering_chain ''x'') False"] f t
  show ?thesis
    by (simp add: TroubleshootingState_new_def)
qed

section \<open>Strategy selection and the state of the response\<close>

lemma active_problem_Some:
  "active_problem ts = Some name \<Longrightarrow> is_active ts \<and> current_problem ts = Some name"
  by (auto simp: active_problem_def split: if_splits)

lemma active_problem_None_inactive: "\<not> is_active ts \<Longrightarrow> active_problem ts = None"
  by (simp add: active_problem_def)

lemma select_strategy_active:
  assumes "active_problem (troubleshooting_state req) = Some name"
  shows "problem_name (select_strategy g req) = Bound name"
    and "current_step_local (select_strategy g req) = Bound (current_step (troubleshooting_state req))"
    and "response_strategy (select_strategy g req) \<noteq> ''start_troubleshooting''"
    and "response_strategy (select_strategy g req) \<noteq> ''rag''"
  using assms by (simp_all add: select_strategy_def Let_def)

lemma select_strategy_inactive:
  assumes "active_problem (troubleshooting_state req) = None"
  shows "response_strategy (select_strategy g req) \<noteq> ''solved''"
    and "response_strategy (select_strategy g req) \<noteq> ''next_step''"
    and "(response_strategy (select_strategy g req) = ''start_troubleshooting'') =
         (\<not> is_active (troubleshooting_state req) \<and> problem_dict g \<noteq> []
          \<and> truthy (detect_problem (prompt req) (problem_dict g))
          \<and> is_asking_for_help (prompt req))"
    and "response_strategy (select_strategy g req) = ''start_troubleshooting''
         \<Longrightarrow> detected_problem (select_strategy g req)
             = Bound (detect_problem (prompt req) (problem_dict g))"
    and "response_strategy (select_strategy g req) \<noteq> ''start_troubleshooting''
         \<Longrightarrow> response_strategy (select_strategy g req) = ''rag''
             \<and> needs_rag_call (select_strategy g req)"
  using assms by (auto simp: select_strategy_def Let_def split: if_splits)

lemma needs_rag_call_strategy:
  assumes "needs_rag_call (select_strategy g req)"
  shows "response_strategy (select_strategy g req) \<noteq> ''solved''"
    and "response_strategy (select_strategy g req) \<noteq> ''next_step''"
    and "response_strategy (select_strategy g req) \<noteq> ''start_troubleshooting''"
  using assms
  by (auto simp: select_strategy_def Let_def split: option.splits if_splits)

lemma regular_processing_rag:
  assumes "needs_rag_call (select_strategy g req)"
  shows "regular_processing g req =
     (case rag_outcome g req (contextual_prompt (select_strategy g req)) of
        ((text, source), log) \<Rightarrow> (Inr (text, source, troubleshooting_state req, False), log))"
  using assms needs_rag_call_strategy [OF assms]
  by (simp add: regular_processing_def Let_def)


lemma get_next_solution_step_loop:
  "map_of catalog name = Some d \<Longrightarrow> d \<noteq> [] \<Longrightarrow>
   get_next_solution_step catalog name k
     = next_step_loop d (dict_get d ''possible_cause'' ''N/A'') (k + 1)"
  by (simp add: get_next_solution_step_def Let_def)

lemma get_next_solution_step_known:
  assumes "get_next_solution_step catalog name k = (Some n, t, c)"
  shows "name \<in> fst ` set catalog"
proof (cases "map_of catalog name")
  case None
  with assms show ?thesis
    by (simp add: get_next_solution_step_def)
next
  case (Some d)
  then have "(name, d) \<in> set catalog"
    by (rule map_of_SomeD)
  then show ?thesis
    by (rule rev_image_eqI) simp
qed

lemma next_step_outcome_state:
  assumes "next_step_outcome g ts name step = (t, s, rs, off)"
  shows "rs = TroubleshootingState_new
         \<or> (name \<in> fst ` set (problem_dict g) \<and> (\<exists>n. rs = ts\<lparr>current_step := n\<rparr>))"
proof -
  obtain a b c where r: "get_next_solution_step (problem_dict g) name step = (a, b, c)"
    by (cases "get_next_solution_step (problem_dict g) name step")
  show ?thesis
  proof (cases "\<exists>n u. a = Some n \<and> b = Some u \<and> n \<noteq> 0 \<and> u \<noteq> []")
    case True
    then obtain n u where "a = Some n" "b = Some u" "n \<noteq> 0" "u \<noteq> []"
      by blast
    with assms r get_next_solution_step_known [of "problem_dict g" name step n b c]
    show ?thesis
      by (auto simp: next_step_outcome_def)
  next
    case False
    with assms r have "(t, s, rs, off) = steps_exhausted_outcome g name"
      by (auto simp: next_step_outcome_def split: option.splits if_splits)
    then show ?thesis
      by (simp add: steps_exhausted_outcome_def)
  qed
qed

lemma start_outcome_state:
  assumes "start_outcome g d = (t, s, rs, off)"
  shows "rs = TroubleshootingState_new
         \<or> (\<exists>k n. d = Some k \<and> k \<in> fst ` set (problem_dict g)
                 \<and> rs = \<lparr>is_active = True, current_problem = Some k, current_step = n\<rparr>)"
proof (cases d)
  case None
  with assms show ?thesis
    by (simp add: start_outcome_def retrieval_error_outcome_def)
next
  case (Some k)
  show ?thesis
  proof (cases "map_of (problem_dict g) k")
    case None
    with assms Some show ?thesis
      by (simp add: start_outcome_def retrieval_error_outcome_def)
  next
    case data: (Some data)
    then have key: "k \<in> fst ` set (problem_dict g)"
      by (auto dest: map_of_SomeD intro: rev_image_eqI)
    from assms Some data key show ?thesis
      by (auto simp: start_outcome_def retrieval_error_outcome_def no_steps_outcome_def
               split: list.splits option.splits if_splits prod.splits)
  qed
qed

lemma regular_processing_state:
  assumes "fst (regular_processing g req) = Inr (t, s, rs, off)"
  shows "rs = troubleshooting_state req \<or> rs = TroubleshootingState_new
         \<or> (\<exists>k n. k \<in> fst ` set (problem_dict g)
                 \<and> rs = \<lparr>is_active = True, current_problem = Some k, current_step = n\<rparr>)"
proof -
  let ?ts = "troubleshooting_state req"
  let ?v = "select_strategy g req"
  consider (solved) "response_strategy ?v = ''solved''"
    | (next_step) "response_strategy ?v = ''next_step''"
    | (start) "response_strategy ?v = ''start_troubleshooting''"
    | (other) "response_strategy ?v \<noteq> ''solved''" "response_strategy ?v \<noteq> ''next_step''"
        "response_strategy ?v \<noteq> ''start_troubleshooting''"
    by blast
  then show ?thesis
  proof cases
    case solved
    with assms show ?thesis
      by (auto simp: regular_processing_def Let_def solved_outcome_def split: local.splits)
  next
    case next_step
    then obtain name where a: "active_problem ?ts = Some name"
      using select_strategy_inactive(2) [of req g] by (cases "active_problem ?ts") auto
    note b = select_strategy_active(1,2) [OF a, of g]
    from assms next_step b
    have "next_step_outcome g ?ts name (current_step ?ts) = (t, s, rs, off)"
      by (simp add: regular_processing_def Let_def)
    from next_step_outcome_state [OF this] active_problem_Some [OF a]
    show ?thesis
      by (cases ?ts) auto
  next
    case start
    have a: "active_problem ?ts = None"
      using select_strategy_active(3) [of req _ g] start by (cases "active_problem ?ts") auto
    from assms start select_strategy_inactive(4) [OF a start]
    have "start_outcome g (detect_problem (prompt req) (problem_dict g)) = (t, s, rs, off)"
      by (simp add: regular_processing_def Let_def)
    from start_outcome_state [OF this] show ?thesis
      by auto
  next
    case other
    with assms show ?thesis
      by (auto simp: regular_processing_def Let_def split: if_splits prod.splits)
  qed
qed

lemma try_block_state:
  assumes "fst (try_block g req) = Inr (t, s, rs, off)"
  shows "rs = troubleshooting_state req \<or> rs = TroubleshootingState_new
         \<or> (\<exists>k n. k \<in> fst ` set (problem_dict g)
                 \<and> rs = \<lparr>is_active = True, current_problem = Some k, current_step = n\<rparr>)"
  using assms forced_state [of g req t s rs off] regular_processing_state [of g req t s rs off]
  by (auto simp: try_block_def split: if_splits)

text \<open>
  C6. When the troubleshooting state of the request satisfies the invariant (a problem is
  set exactly when the state is active), so does the state of the response. The returned
  state is the state of the request unchanged, or the empty state (every reset: inactive,
  no problem, step 0), or an active state whose problem is a key of the catalogue (every
  activation and every step advance).
\<close>

theorem troubleshooting_state_invariant:
  assumes "ts_invariant (troubleshooting_state req)"
  shows "ts_invariant (response_state (fst (chat_endpoint g req)))
         \<and> (response_state (fst (chat_endpoint g req)) = troubleshooting_state req
            \<or> response_state (fst (chat_endpoint g req))
                = \<lparr>is_active = False, current_problem = None, current_step = 0\<rparr>
            \<or> (\<exists>k n. k \<in> fst ` set (problem_dict g)
                    \<and> response_state (fst (chat_endpoint g req))
                        = \<lparr>is_active = True, current_problem = Some k, current_step = n\<rparr>))"
proof -
  let ?rs = "response_state (fst (chat_endpoint g req))"
  have shape: "?rs = troubleshooting_state req \<or> ?rs = TroubleshootingState_new
         \<or> (\<exists>k n. k \<in> fst ` set (problem_dict g)
                 \<and> ?rs = \<lparr>is_active = True, current_problem = Some k, current_step = n\<rparr>)"
  proof (cases "fst (try_block g req)")
    case (Inl e)
    then show ?thesis
      by (simp add: chat_endpoint_state)
  next
    case (Inr out)
    obtain t s rs off where out: "out = (t, s, rs, off)"
      by (cases out)
    from Inr out try_block_state [of g req t s rs off] show ?thesis
      by (simp add: chat_endpoint_state)
  qed
  then have "ts_invariant ?rs"
    using assms by (auto simp: ts_invariant_def TroubleshootingState_new_def)
  with shape show ?thesis
    by (simp add: TroubleshootingState_new_def)
qed

theorem troubleshooting_state_invariant_witness:
  "ts_invariant (pump_at_step 1)
   \<and> ts_invariant (response_state (fst (chat_endpoint (example_globals (answering_chain ''x'') True)
                                       (example_request ''nope'' (pump_at_step 1) False))))
   \<and> response_state (fst (chat_endpoint (example_globals (answering_chain ''x'') True)
                            (example_request ''nope'' (pump_at_step 1) False)))
       = \<lparr>is_active = True, current_problem = Some ''pump overheating'', current_step = 2\<rparr>
   \<and> response_state (fst (chat_endpoint (example_globals (answering_chain ''x'') True)
                            (example_request ''nope'' (pump_at_step 2) False)))
       = \<lparr>is_active = False, current_problem = None, current_step = 0\<rparr>"
proof -
  have i: "ts_invariant (troubleshooting_state (example_request ''nope'' (pump_at_step 1) False))"
    by (simp add: ts_invariant_def example_request_def pump_at_step_def)
  have a: "response_state (fst (chat_endpoint (example_globals (answering_chain ''x'') True)
                            (example_request ''nope'' (pump_at_step 1) False)))
       = \<lparr>is_active = True, current_problem = Some ''pump overheating'', current_step = 2\<rparr>"
    by code_simp
  have b: "response_state (fst (chat_endpoint (example_globals (answering_chain ''x'') True)
                            (example_request ''nope'' (pump_at_step 2) False)))
       = \<lparr>is_active = False, current_problem = None, current_step = 0\<rparr>"
    by code_simp
  from troubleshooting_state_invariant [OF i, of "example_globals (answering_chain ''x'') True"]
       i a b
  show ?thesis
    by (simp add: example_request_def)
qed

section \<open>Starting the guided mode\<close>

lemma truthy_detected:
  assumes "[] \<notin> fst ` set catalog"
  shows "truthy (detect_problem text catalog) = (detect_problem text catalog \<noteq> None)"
proof (cases "detect_problem text catalog")
  case None
  then show ?thesis by (simp add: truthy_def)
next
  case (Some k)
  from detect_problem_mem [OF this] assms have "k \<noteq> []"
    by blast
  with Some show ?thesis by (simp add: truthy_def)
qed

lemma start_strategy_iff:
  assumes "[] \<notin> fst ` set (problem_dict g)"
  shows "(response_strategy (select_strategy g req) = ''start_troubleshooting'') =
         (\<not> is_active (troubleshooting_state req) \<and> problem_dict g \<noteq> []
          \<and> detect_problem (prompt req) (problem_dict g) \<noteq> None
          \<and> is_asking_for_help (prompt req))"
proof (cases "active_problem (troubleshooting_state req)")
  case None
  from select_strategy_inactive(3) [OF None, of g] truthy_detected [OF assms, of "prompt req"]
  show ?thesis by simp
next
  case (Some name)
  from select_strategy_active(3) [OF Some, of g] active_problem_Some [OF Some]
  show ?thesis by simp
qed

lemma first_step_found:
  assumes "map_of catalog d = Some data"
    and "0 < i" and "i \<le> MAX_SOLUTION_STEPS" and "step_text data i \<noteq> []"
    and "\<forall>j. 0 < j \<and> j < i \<longrightarrow> step_text data j = []"
  shows "get_next_solution_step catalog d 0
         = (Some i, Some (step_text data i), Some (dict_get data ''possible_cause'' ''N/A''))"
proof -
  let ?c = "dict_get data ''possible_cause'' ''N/A''"
  have ne: "data \<noteq> []"
    using assms(4) by (auto simp: step_text_def dict_get_def strip_def lstrip_def rstrip_def)
  have g: "get_next_solution_step catalog d 0 = next_step_loop data ?c 1"
    using get_next_solution_step_loop [OF assms(1) ne, of 0] by simp
  obtain a b c where r: "next_step_loop data ?c 1 = (a, b, c)"
    by (cases "next_step_loop data ?c 1")
  note spec = next_step_loop_spec [where d = data and c = ?c and n = 1]
  show ?thesis
  proof (cases a)
    case None
    with spec r have "\<forall>j. 1 \<le> j \<and> j \<le> MAX_SOLUTION_STEPS \<longrightarrow> step_text data j = []"
      by (auto split: option.splits)
    with assms(2,3,4) show ?thesis by force
  next
    case (Some i')
    with spec r obtain t where b: "b = Some t"
      by (auto split: option.splits)
    from spec r Some b have f: "1 \<le> i'" "i' \<le> MAX_SOLUTION_STEPS" "t = step_text data i'"
      "t \<noteq> []" "c = Some ?c"
      and all: "\<forall>j. 1 \<le> j \<and> j < i' \<longrightarrow> step_text data j = []"
      by auto
    have "i' = i"
    proof (rule ccontr)
      assume "i' \<noteq> i"
      then consider "i' < i" | "i < i'" by linarith
      then show False
      proof cases
        case 1
        with assms(5) f show ?thesis by force
      next
        case 2
        with all assms(2,4) show ?thesis by force
      qed
    qed
    with g r Some b f show ?thesis by simp
  qed
qed

text \<open>
  C2. With a catalogue whose keys are not empty, the strategy "start\_troubleshooting" is
  chosen exactly when the state is inactive, the catalogue is not empty, \<open>detect_problem\<close>
  finds a problem in the prompt and \<open>is_asking_for_help\<close> holds of the prompt. When in
  addition the detected problem has a first non-empty step, the turn (one without
  \<open>force_web_search\<close>, where the strategy is carried out) returns the active state with
  that problem and the index of that step, under the source label "Troubleshooting Start".
  A prompt of an inactive conversation that does not ask for help never activates the
  guided mode, whether or not it names a problem.
\<close>

theorem start_troubleshooting_spec:
  assumes "[] \<notin> fst ` set (problem_dict g)"
  shows "((response_strategy (select_strategy g req) = ''start_troubleshooting'') =
           (\<not> is_active (troubleshooting_state req) \<and> problem_dict g \<noteq> []
            \<and> detect_problem (prompt req) (problem_dict g) \<noteq> None
            \<and> is_asking_for_help (prompt req)))
       \<and> (\<not> force_web_search req
            \<and> response_strategy (select_strategy g req) = ''start_troubleshooting''
            \<and> detect_problem (prompt req) (problem_dict g) = Some d
            \<and> map_of (problem_dict g) d = Some data
            \<and> 0 < i \<and> i \<le> MAX_SOLUTION_STEPS \<and> step_text data i \<noteq> []
            \<and> (\<forall>j. 0 < j \<and> j < i \<longrightarrow> step_text data j = [])
          \<longrightarrow> response_state (fst (chat_endpoint g req))
                = \<lparr>is_active = True, current_problem = Some d, current_step = i\<rparr>
              \<and> final_answer_source (fst (chat_endpoint g req)) = ''Troubleshooting Start''
              \<and> snd (chat_endpoint g req) = [])
       \<and> (\<not> is_active (troubleshooting_state req) \<and> \<not> is_asking_for_help (prompt req)
          \<longrightarrow> \<not> is_active (response_state (fst (chat_endpoint g req))))"
proof -
  let ?v = "select_strategy g req"
  let ?ts = "troubleshooting_state req"
  have part2: "response_state (fst (chat_endpoint g req))
                = \<lparr>is_active = True, current_problem = Some d, current_step = i\<rparr>
              \<and> final_answer_source (fst (chat_endpoint g req)) = ''Troubleshooting Start''
              \<and> snd (chat_endpoint g req) = []"
    if nf: "\<not> force_web_search req"
      and st: "response_strategy ?v = ''start_troubleshooting''"
      and det: "detect_problem (prompt req) (problem_dict g) = Some d"
      and m: "map_of (problem_dict g) d = Some data"
      and i: "0 < i" "i \<le> MAX_SOLUTION_STEPS" "step_text data i \<noteq> []"
      and least: "\<forall>j. 0 < j \<and> j < i \<longrightarrow> step_text data j = []"
  proof -
    have a: "active_problem ?ts = None"
      using select_strategy_active(3) [of req _ g] st by (cases "active_problem ?ts") auto
    have dp: "detected_problem ?v = Bound (Some d)"
      using select_strategy_inactive(4) [OF a st] det by simp
    have ne: "data \<noteq> []"
      using i(3) by (auto simp: step_text_def dict_get_def strip_def lstrip_def rstrip_def)
    have gn: "get_next_solution_step (problem_dict g) d 0
         = (Some i, Some (step_text data i), Some (dict_get data ''possible_cause'' ''N/A''))"
      using first_step_found [OF m i least] .
    have so: "\<exists>t. start_outcome g (Some d)
          = (t, ''Troubleshooting Start'',
             \<lparr>is_active = True, current_problem = Some d, current_step = i\<rparr>, False)
          \<and> t \<noteq> []"
      using m ne gn i by (cases data) (simp_all add: start_outcome_def)
    then obtain t where t: "start_outcome g (Some d)
          = (t, ''Troubleshooting Start'',
             \<lparr>is_active = True, current_problem = Some d, current_step = i\<rparr>, False)"
      and tne: "t \<noteq> []"
      by blast
    have "try_block g req = (Inr (t, ''Troubleshooting Start'',
             \<lparr>is_active = True, current_problem = Some d, current_step = i\<rparr>, False), [])"
      using nf st dp t by (simp add: try_block_def regular_processing_def Let_def)
    then show ?thesis
      using tne by (simp add: chat_endpoint_state chat_endpoint_source chat_endpoint_log)
  qed
  have part3: "\<not> is_active (response_state (fst (chat_endpoint g req)))"
    if ia: "\<not> is_active ?ts" and nh: "\<not> is_asking_for_help (prompt req)"
  proof (cases "fst (try_block g req)")
    case (Inl e)
    then show ?thesis
      by (simp add: chat_endpoint_state TroubleshootingState_new_def)
  next
    case (Inr out)
    obtain t s rs off where out: "out = (t, s, rs, off)"
      by (cases out)
    have rs: "response_state (fst (chat_endpoint g req)) = rs"
      using Inr out by (simp add: chat_endpoint_state)
    show ?thesis
    proof (cases "force_web_search req")
      case True
      with Inr out forced_state [of g req t s rs off] rs show ?thesis
        by (simp add: try_block_def TroubleshootingState_new_def)
    next
      case False
      have a: "active_problem ?ts = None"
        using ia by (rule active_problem_None_inactive)
      have ns: "response_strategy ?v \<noteq> ''start_troubleshooting''"
        using select_strategy_inactive(3) [OF a, of g] nh by simp
      from select_strategy_inactive(5) [OF a ns]
      have "needs_rag_call ?v" by simp
      from regular_processing_rag [OF this] Inr out False have "rs = ?ts"
        by (auto simp: try_block_def split: prod.splits)
      with rs ia show ?thesis by simp
    qed
  qed
  from start_strategy_iff [OF assms, of req] part2 part3 show ?thesis
    by blast
qed

theorem start_troubleshooting_spec_witness:
  "[] \<notin> fst ` set (problem_dict (example_globals (answering_chain ''x'') True))
   \<and> detect_problem ''how do I fix pump overheating'' example_catalog = Some ''pump overheating''
   \<and> is_asking_for_help ''how do I fix pump overheating''
   \<and> response_strategy (select_strategy (example_globals (answering_chain ''x'') True)
        (example_request ''how do I fix pump overheating'' TroubleshootingState_new False))
       = ''start_troubleshooting''
   \<and> response_state (fst (chat_endpoint (example_globals (answering_chain ''x'') True)
        (example_request ''how do I fix pump overheating'' TroubleshootingState_new False)))
       = \<lparr>is_active = True, current_problem = Some ''pump overheating'', current_step = 1\<rparr>
   \<and> final_answer_source (fst (chat_endpoint (example_globals (answering_chain ''x'') True)
        (example_request ''how do I fix pump overheating'' TroubleshootingState_new False)))
       = ''Troubleshooting Start''
   \<and> detect_problem ''the pump overheating again'' example_catalog = Some ''pump overheating''
   \<and> \<not> is_asking_for_help ''the pump overheating again''
   \<and> \<not> is_active (response_state (fst (chat_endpoint (example_globals (answering_chain ''x'') True)
        (example_request ''the pump overheating again'' TroubleshootingState_new False))))"
proof -
  let ?g = "example_globals (answering_chain ''x'') True"
  let ?req = "example_request ''how do I fix pump overheating'' TroubleshootingState_new False"
  let ?req2 = "example_request ''the pump overheating again'' TroubleshootingState_new False"
  let ?data = "[(''possible_cause'', ''low coolant''),
        (''solution_step_1'', ''Check coolant level''),
        (''solution_step_2'', ''Inspect impeller''),
        (''solution_step_3'', [])]"
  have pd: "problem_dict ?g = example_catalog"
    by (simp add: example_globals_def)
  have k: "[] \<notin> fst ` set (problem_dict ?g)"
    unfolding pd by (simp add: example_catalog_def)
  have ne: "problem_dict ?g \<noteq> []"
    unfolding pd by (simp add: example_catalog_def)
  have d: "detect_problem ''how do I fix pump overheating'' example_catalog
           = Some ''pump overheating''"
    by code_simp
  have h: "is_asking_for_help ''how do I fix pump overheating''"
    by code_simp
  have d2: "detect_problem ''the pump overheating again'' example_catalog
            = Some ''pump overheating''"
    by code_simp
  have h2: "\<not> is_asking_for_help ''the pump overheating again''"
    by code_simp
  have m: "map_of (problem_dict ?g) ''pump overheating'' = Some ?data"
    unfolding pd by (simp add: example_catalog_def)
  have s1: "step_text ?data 1 \<noteq> []"
    by code_simp
  have l: "\<forall>j::int. 0 < j \<and> j < 1 \<longrightarrow> step_text ?data j = []"
    by auto
  have mx: "(1::int) \<le> MAX_SOLUTION_STEPS"
    by (simp add: MAX_SOLUTION_STEPS_def)
  have r: "prompt ?req = ''how do I fix pump overheating''" "\<not> force_web_search ?req"
    "\<not> is_active (troubleshooting_state ?req)"
    by (simp_all add: example_request_def TroubleshootingState_new_def)
  have r2: "prompt ?req2 = ''the pump overheating again''"
    "\<not> is_active (troubleshooting_state ?req2)"
    by (simp_all add: example_request_def TroubleshootingState_new_def)
  note t = start_troubleshooting_spec [OF k, of ?req "''pump overheating''" ?data 1]
  note t2 = start_troubleshooting_spec [OF k, of ?req2 "''pump overheating''" ?data 1]
  have st: "response_strategy (select_strategy ?g ?req) = ''start_troubleshooting''"
    using t r ne d h pd by simp
  have out: "response_state (fst (chat_endpoint ?g ?req))
       = \<lparr>is_active = True, current_problem = Some ''pump overheating'', current_step = 1\<rparr>
     \<and> final_answer_source (fst (chat_endpoint ?g ?req)) = ''Troubleshooting Start''"
    using t st r d m s1 l mx pd by simp
  have no: "\<not> is_active (response_state (fst (chat_endpoint ?g ?req2)))"
    using t2 r2 h2 by simp
  from k d h st out d2 h2 no show ?thesis
    by simp
qed

section \<open>Retrieval failures\<close>

lemma invoke_rag_chain_log:
  "invoke_rag_chain chain p h [] = (r, log) \<Longrightarrow> \<not> list_ex is_web_call log"
  by (auto simp: invoke_rag_chain_def Let_def is_web_call_def
           split: option.splits if_splits sum.splits)

lemma rate_limited_reply_label:
  "snd (rate_limited_reply e) = ''Error (Rate Limited)'' \<and> fst (rate_limited_reply e) \<noteq> []"
  by (simp add: rate_limited_reply_def Let_def)

lemma retrieval_failure_reply_label:
  "snd (retrieval_failure_reply e)
     = (if is_ResourceExhausted e \<or> caused_by_rate_limit e
        then ''Error (Rate Limited)'' else ''Error (RAG Failure)'')
   \<and> fst (retrieval_failure_reply e) \<noteq> []"
  by (auto simp: retrieval_failure_reply_def rate_limited_reply_label split: option.splits)

lemma rag_outcome_failure:
  assumes "invoke_rag_chain (rag_chain g) p (history req) [] = (Inl e, log)"
  shows "rag_outcome g req p = (retrieval_failure_reply e, log)"
  using assms by (simp add: rag_outcome_def)

lemma rag_outcome_web_call:
  assumes "list_ex is_web_call (snd (rag_outcome g req p))"
  shows "\<exists>response log.
           invoke_rag_chain (rag_chain g) p (history req) [] = (Inr response, log)
           \<and> (strip (dict_get response ''answer'' []) = []
              \<or> \<not> is_rag_answer_sufficient (strip (dict_get response ''answer'' [])))"
proof -
  obtain r log where i: "invoke_rag_chain (rag_chain g) p (history req) [] = (r, log)"
    by (cases "invoke_rag_chain (rag_chain g) p (history req) []")
  note nw = invoke_rag_chain_log [OF i]
  show ?thesis
  proof (cases r)
    case (Inl e)
    with i assms nw show ?thesis
      by (simp add: rag_outcome_def)
  next
    case (Inr response)
    with i assms nw show ?thesis
      by (auto simp: rag_outcome_def Let_def split: if_splits)
  qed
qed

text \<open>
  C1. In a turn that takes the retrieval path (no \<open>force_web_search\<close>, and the strategy
  needs the retrieval call): when the retrieval raises, the source label is
  "Error (Rate Limited)" if the exception, or its cause, is a quota exhaustion and
  "Error (RAG Failure)" otherwise, and the log of the turn holds no call of the web
  search. A call of the web search is in the log only when the retrieval returned and
  its answer, stripped, is empty or judged insufficient.
\<close>

theorem retrieval_failure_is_terminal:
  assumes "\<not> force_web_search req" and "needs_rag_call (select_strategy g req)"
  shows "(invoke_rag_chain (rag_chain g) (contextual_prompt (select_strategy g req))
            (history req) [] = (Inl e, log)
          \<longrightarrow> final_answer_source (fst (chat_endpoint g req))
                = (if is_ResourceExhausted e \<or> caused_by_rate_limit e
                   then ''Error (Rate Limited)'' else ''Error (RAG Failure)'')
              \<and> \<not> list_ex is_web_call (snd (chat_endpoint g req)))
       \<and> (list_ex is_web_call (snd (chat_endpoint g req))
          \<longrightarrow> (\<exists>response log'.
                 invoke_rag_chain (rag_chain g) (contextual_prompt (select_strategy g req))
                   (history req) [] = (Inr response, log')
                 \<and> (strip (dict_get response ''answer'' []) = []
                    \<or> \<not> is_rag_answer_sufficient (strip (dict_get response ''answer'' [])))))"
proof -
  let ?p = "contextual_prompt (select_strategy g req)"
  have tb: "try_block g req =
     (case rag_outcome g req ?p of
        ((text, source), l) \<Rightarrow> (Inr (text, source, troubleshooting_state req, False), l))"
    using assms regular_processing_rag [OF assms(2)] by (simp add: try_block_def)
  have log_eq: "snd (chat_endpoint g req) = snd (rag_outcome g req ?p)"
    unfolding chat_endpoint_log tb by (simp split: prod.splits)
  have part1: "final_answer_source (fst (chat_endpoint g req))
                = (if is_ResourceExhausted e \<or> caused_by_rate_limit e
                   then ''Error (Rate Limited)'' else ''Error (RAG Failure)'')
              \<and> \<not> list_ex is_web_call (snd (chat_endpoint g req))"
    if f: "invoke_rag_chain (rag_chain g) ?p (history req) [] = (Inl e, log)"
  proof -
    have ro: "rag_outcome g req ?p = (retrieval_failure_reply e, log)"
      using f by (rule rag_outcome_failure)
    obtain t s where ts: "retrieval_failure_reply e = (t, s)"
      by (cases "retrieval_failure_reply e")
    with retrieval_failure_reply_label [of e]
    have s: "s = (if is_ResourceExhausted e \<or> caused_by_rate_limit e
                  then ''Error (Rate Limited)'' else ''Error (RAG Failure)'')"
      and t: "t \<noteq> []"
      by simp_all
    have "try_block g req = (Inr (t, s, troubleshooting_state req, False), log)"
      unfolding tb ro ts by simp
    then have "final_answer_source (fst (chat_endpoint g req)) = s"
      using t by (simp add: chat_endpoint_source)
    moreover have "\<not> list_ex is_web_call (snd (chat_endpoint g req))"
      unfolding log_eq ro using invoke_rag_chain_log [OF f] by simp
    ultimately show ?thesis
      using s by simp
  qed
  have part2: "\<exists>response log'.
                 invoke_rag_chain (rag_chain g) ?p (history req) [] = (Inr response, log')
                 \<and> (strip (dict_get response ''answer'' []) = []
                    \<or> \<not> is_rag_answer_sufficient (strip (dict_get response ''answer'' [])))"
    if "list_ex is_web_call (snd (chat_endpoint g req))"
    using that rag_outcome_web_call [of g req ?p] unfolding log_eq by simp
  from part1 part2 show ?thesis
    by blast
qed

lemma select_strategy_cong:
  "problem_dict g = problem_dict g' \<Longrightarrow> select_strategy g req = select_strategy g' req"
  unfolding select_strategy_def by (erule ssubst) (rule refl)

theorem retrieval_failure_is_terminal_witness:
  "final_answer_source (fst (chat_endpoint (example_globals (failing_chain rate_limit_error) True)
        (example_request ''tell me about bilge pumps'' TroubleshootingState_new False)))
     = ''Error (Rate Limited)''
   \<and> \<not> list_ex is_web_call (snd (chat_endpoint (example_globals (failing_chain rate_limit_error) True)
        (example_request ''tell me about bilge pumps'' TroubleshootingState_new False)))
   \<and> final_answer_source (fst (chat_endpoint
        (example_globals (failing_chain wrapped_rate_limit_error) True)
        (example_request ''tell me about bilge pumps'' TroubleshootingState_new False)))
     = ''Error (Rate Limited)''
   \<and> final_answer_source (fst (chat_endpoint
        (example_globals (failing_chain (Exc ''ValueError'' ''bad input'' False False None)) True)
        (example_request ''tell me about bilge pumps'' TroubleshootingState_new False)))
     = ''Error (RAG Failure)''
   \<and> list_ex is_web_call (snd (chat_endpoint
        (example_globals (answering_chain ''I don't have enough information about that system.'') True)
        (example_request ''tell me about bilge pumps'' TroubleshootingState_new False)))
   \<and> \<not> is_rag_answer_sufficient ''I don't have enough information about that system.''"
proof -
  let ?req = "example_request ''tell me about bilge pumps'' TroubleshootingState_new False"
  let ?g = "\<lambda>e. example_globals (failing_chain e) True"
  let ?ga = "example_globals (answering_chain ''I don't have enough information about that system.'') True"
  have nf: "\<not> force_web_search ?req"
    by (simp add: example_request_def)
  have sel: "select_strategy (example_globals chain True) ?req
             = select_strategy (example_globals (answering_chain ''x'') True) ?req" for chain
    by (rule select_strategy_cong) (simp add: example_globals_def)
  have "needs_rag_call (select_strategy (example_globals (answering_chain ''x'') True) ?req)"
    by code_simp
  then have nr: "needs_rag_call (select_strategy (example_globals chain True) ?req)" for chain
    using sel [of chain] by simp
  have inv: "invoke_rag_chain (rag_chain (?g e)) p (history ?req) []
             = (Inl e, snd (invoke_rag_chain (rag_chain (?g e)) p (history ?req) []))" for e p
    by (simp add: invoke_rag_chain_def example_globals_def failing_chain_def Let_def)
  have f: "final_answer_source (fst (chat_endpoint (?g e) ?req))
             = (if is_ResourceExhausted e \<or> caused_by_rate_limit e
                then ''Error (Rate Limited)'' else ''Error (RAG Failure)'')
           \<and> \<not> list_ex is_web_call (snd (chat_endpoint (?g e) ?req))" for e
    using retrieval_failure_is_terminal [OF nf nr, of "failing_chain e" e] inv [of e]
    by blast
  have w: "list_ex is_web_call (snd (chat_endpoint ?ga ?req))"
    by code_simp
  have ins: "\<not> is_rag_answer_sufficient ''I don't have enough information about that system.''"
    by code_simp
  from f [of rate_limit_error] f [of wrapped_rate_limit_error]
       f [of "Exc ''ValueError'' ''bad input'' False False None"] w ins
  show ?thesis
    by (simp add: rate_limit_error_def wrapped_rate_limit_error_def caused_by_rate_limit_def)
qed

section \<open>Formatting under a character budget\<close>

lemma join_snoc: "fs \<noteq> [] \<Longrightarrow> join sep (fs @ [e]) = join sep fs @ sep @ e"
  by (induction sep fs rule: join.induct) auto

lemma length_join_snoc:
  "fs \<noteq> [] \<Longrightarrow>
   int (length (join sep (fs @ [e]))) = int (length (join sep fs)) + int (length sep) + int (length e)"
  by (simp add: join_snoc)

lemma format_loop_spec:
  assumes "fs \<noteq> []" and "tot = int (length (join separator fs))"
    and "0 < tot" and "tot \<le> m"
  shows "\<exists>k\<le>length rest.
          (format_loop m rest fs tot = fs @ map (case_prod full_entry) (take k rest)
           \<or> (k < length rest
               \<and> format_loop m rest fs tot
                   = fs @ map (case_prod full_entry) (take k rest)
                     @ [case_prod short_entry (rest ! k)]))
          \<and> int (length (join separator (format_loop m rest fs tot))) \<le> m
          \<and> (k < length rest \<longrightarrow>
                m < int (length (join separator
                      (fs @ map (case_prod full_entry) (take k rest)
                       @ [case_prod full_entry (rest ! k)]))))
          \<and> (k < length rest
               \<and> format_loop m rest fs tot = fs @ map (case_prod full_entry) (take k rest)
              \<longrightarrow> m < int (length (join separator
                      (fs @ map (case_prod full_entry) (take k rest)
                       @ [case_prod short_entry (rest ! k)]))))"
  using assms
proof (induction rest arbitrary: fs tot)
  case Nil
  then show ?case by simp
next
  case (Cons a rest)
  obtain i res where a: "a = (i, res)" by (cases a)
  let ?entry = "full_entry i res"
  let ?short = "short_entry i res"
  let ?sep = "int (length separator)"
  have tz: "tot \<noteq> 0" using Cons.prems by simp
  have lf: "int (length (join separator (fs @ [e]))) = tot + ?sep + int (length e)" for e
    using Cons.prems(1,2) by (simp add: length_join_snoc)
  show ?case
  proof (cases "tot + ?sep + int (length ?entry) \<le> m")
    case True
    let ?fs' = "fs @ [?entry]"
    let ?tot' = "tot + (?sep + int (length ?entry))"
    have step: "format_loop m (a # rest) fs tot = format_loop m rest ?fs' ?tot'"
      using True tz by (simp add: a Let_def)
    have p1: "?fs' \<noteq> []" by simp
    have p2: "?tot' = int (length (join separator ?fs'))"
      using lf [of ?entry] by simp
    have p3: "0 < ?tot'" using Cons.prems(3) by simp
    have p4: "?tot' \<le> m" using True by simp
    from Cons.IH [OF p1 p2 p3 p4] obtain k where k: "k \<le> length rest"
      and d: "format_loop m rest ?fs' ?tot' = ?fs' @ map (case_prod full_entry) (take k rest)
           \<or> (k < length rest
               \<and> format_loop m rest ?fs' ?tot'
                   = ?fs' @ map (case_prod full_entry) (take k rest)
                     @ [case_prod short_entry (rest ! k)])"
      and l: "int (length (join separator (format_loop m rest ?fs' ?tot'))) \<le> m"
      and o1: "k < length rest \<longrightarrow>
                m < int (length (join separator
                      (?fs' @ map (case_prod full_entry) (take k rest)
                       @ [case_prod full_entry (rest ! k)])))"
      and o2: "k < length rest
               \<and> format_loop m rest ?fs' ?tot' = ?fs' @ map (case_prod full_entry) (take k rest)
              \<longrightarrow> m < int (length (join separator
                      (?fs' @ map (case_prod full_entry) (take k rest)
                       @ [case_prod short_entry (rest ! k)])))"
      by blast
    have "Suc k \<le> length (a # rest)" using k by simp
    moreover have "format_loop m (a # rest) fs tot
             = fs @ map (case_prod full_entry) (take (Suc k) (a # rest))
           \<or> (Suc k < length (a # rest)
               \<and> format_loop m (a # rest) fs tot
                   = fs @ map (case_prod full_entry) (take (Suc k) (a # rest))
                     @ [case_prod short_entry ((a # rest) ! Suc k)])"
      using d unfolding step by (simp add: a)
    moreover have "int (length (join separator (format_loop m (a # rest) fs tot))) \<le> m"
      using l unfolding step .
    moreover have "Suc k < length (a # rest) \<longrightarrow>
                m < int (length (join separator
                      (fs @ map (case_prod full_entry) (take (Suc k) (a # rest))
                       @ [case_prod full_entry ((a # rest) ! Suc k)])))"
      using o1 by (simp add: a)
    moreover have "Suc k < length (a # rest)
               \<and> format_loop m (a # rest) fs tot
                   = fs @ map (case_prod full_entry) (take (Suc k) (a # rest))
              \<longrightarrow> m < int (length (join separator
                      (fs @ map (case_prod full_entry) (take (Suc k) (a # rest))
                       @ [case_prod short_entry ((a # rest) ! Suc k)])))"
      using o2 unfolding step by (simp add: a)
    ultimately show ?thesis by blast
  next
    case False
    show ?thesis
    proof (cases "tot + ?sep + int (length ?short) \<le> m")
      case True
      have out: "format_loop m (a # rest) fs tot = fs @ [?short]"
        using False True tz by (simp add: a Let_def)
      have "int (length (join separator (fs @ [?short]))) \<le> m"
        using True lf [of ?short] by simp
      moreover have "m < int (length (join separator (fs @ [?entry])))"
        using False lf [of ?entry] by simp
      ultimately show ?thesis
        unfolding out by (intro exI [of _ 0]) (simp add: a)
    next
      case nshort: False
      have out: "format_loop m (a # rest) fs tot = fs"
        using False nshort tz by (simp add: a Let_def)
      have "int (length (join separator fs)) \<le> m"
        using Cons.prems by simp
      moreover have "m < int (length (join separator (fs @ [?entry])))"
        using False lf [of ?entry] by simp
      moreover have "m < int (length (join separator (fs @ [?short])))"
        using nshort lf [of ?short] by simp
      ultimately show ?thesis
        unfolding out by (intro exI [of _ 0]) (simp add: a)
    qed
  qed
qed

lemma full_entry_nonempty: "full_entry i res \<noteq> []"
  by (simp add: full_entry_def entry_head_def)

lemma truncated_entry_length:
  assumes "3 < max_chars - int (length (entry_head i res))"
    and "max_chars < int (length (full_entry i res))"
  shows "int (length (truncated_entry max_chars i res)) = max_chars + 3"
  using assms by (simp add: truncated_entry_def full_entry_def Let_def min_def)

text \<open>
  What the function returns, case by case. For the empty list it is the fixed message.
  For a non-empty list whose first entry fits the budget, the result is never longer than
  \<open>max_chars\<close>: it is the whole entries of a prefix of the input, joined by the separator,
  where the next entry, if any, would overflow, both whole and in its title-only form; or
  that prefix followed by the title-only form of the next entry, which would overflow
  whole. For a non-empty list whose first entry is longer than the budget, the result is
  that entry alone with its content truncated: when the head of the entry leaves room for
  more than 3 characters of content the result has \<open>max_chars + 3\<close> characters, otherwise
  it is the head alone.
\<close>

lemma format_web_results_cases:
  "(search_results = [] \<longrightarrow>
      format_web_results_for_llm search_results max_chars = ''No web search results found.'')
   \<and> (search_results \<noteq> [] \<and> int (length (full_entry 0 (hd search_results))) \<le> max_chars \<longrightarrow>
        int (length (format_web_results_for_llm search_results max_chars)) \<le> max_chars
        \<and> (\<exists>k. 0 < k \<and> k \<le> length search_results
              \<and> (format_web_results_for_llm search_results max_chars
                    = join separator
                        (map (case_prod full_entry) (take k (enumerate 0 search_results)))
                  \<and> (k < length search_results \<longrightarrow>
                        max_chars < int (length (join separator
                          (map (case_prod full_entry) (take k (enumerate 0 search_results))
                           @ [case_prod full_entry (enumerate 0 search_results ! k)])))
                        \<and> max_chars < int (length (join separator
                          (map (case_prod full_entry) (take k (enumerate 0 search_results))
                           @ [case_prod short_entry (enumerate 0 search_results ! k)]))))
                  \<or> k < length search_results
                    \<and> format_web_results_for_llm search_results max_chars
                        = join separator
                            (map (case_prod full_entry) (take k (enumerate 0 search_results))
                             @ [case_prod short_entry (enumerate 0 search_results ! k)])
                    \<and> max_chars < int (length (join separator
                          (map (case_prod full_entry) (take k (enumerate 0 search_results))
                           @ [case_prod full_entry (enumerate 0 search_results ! k)]))))))
   \<and> (search_results \<noteq> [] \<and> max_chars < int (length (full_entry 0 (hd search_results))) \<longrightarrow>
        format_web_results_for_llm search_results max_chars
          = truncated_entry max_chars 0 (hd search_results)
        \<and> (3 < max_chars - int (length (entry_head 0 (hd search_results))) \<longrightarrow>
             int (length (format_web_results_for_llm search_results max_chars)) = max_chars + 3)
        \<and> (max_chars - int (length (entry_head 0 (hd search_results))) \<le> 3 \<longrightarrow>
             format_web_results_for_llm search_results max_chars
               = entry_head 0 (hd search_results)))"
proof (cases search_results)
  case Nil
  then show ?thesis
    by (simp add: format_web_results_for_llm_def)
next
  case (Cons r rs)
  let ?m = max_chars
  let ?e = "full_entry 0 r"
  let ?rest = "enumerate (Suc 0) rs"
  let ?en = "enumerate 0 search_results"
  let ?out = "format_web_results_for_llm search_results ?m"
  have en: "?en = (0, r) # ?rest"
    by (simp add: Cons)
  have out: "?out = join separator (format_loop ?m ((0, r) # ?rest) [] 0)"
    by (simp add: format_web_results_for_llm_def Cons)
  have big: "?out = truncated_entry ?m 0 r" if "?m < int (length ?e)"
    using that unfolding out by (simp add: Let_def)
  have big_long: "int (length ?out) = ?m + 3"
    if "?m < int (length ?e)" and "3 < ?m - int (length (entry_head 0 r))"
    using big [OF that(1)] truncated_entry_length [OF that(2,1)] by simp
  have big_short: "?out = entry_head 0 r"
    if "?m < int (length ?e)" and "?m - int (length (entry_head 0 r)) \<le> 3"
    using big [OF that(1)] that(2) by (simp add: truncated_entry_def)
  have fits: "int (length ?out) \<le> ?m
        \<and> (\<exists>k. 0 < k \<and> k \<le> length search_results
              \<and> (?out = join separator (map (case_prod full_entry) (take k ?en))
                  \<and> (k < length search_results \<longrightarrow>
                        ?m < int (length (join separator
                          (map (case_prod full_entry) (take k ?en)
                           @ [case_prod full_entry (?en ! k)])))
                        \<and> ?m < int (length (join separator
                          (map (case_prod full_entry) (take k ?en)
                           @ [case_prod short_entry (?en ! k)]))))
                  \<or> k < length search_results
                    \<and> ?out = join separator
                            (map (case_prod full_entry) (take k ?en)
                             @ [case_prod short_entry (?en ! k)])
                    \<and> ?m < int (length (join separator
                          (map (case_prod full_entry) (take k ?en)
                           @ [case_prod full_entry (?en ! k)])))))"
    if le: "int (length ?e) \<le> ?m"
  proof -
    let ?loop = "format_loop ?m ?rest [?e] (int (length ?e))"
    have step: "format_loop ?m ((0, r) # ?rest) [] 0 = ?loop"
      using le by (simp add: Let_def)
    have p3: "0 < int (length ?e)"
      using full_entry_nonempty [of 0 r] by simp
    have p2: "int (length ?e) = int (length (join separator [?e]))"
      by simp
    from format_loop_spec [where fs = "[?e]" and rest = ?rest and m = ?m, OF _ p2 p3 le]
    obtain k where k: "k \<le> length ?rest"
      and d: "?loop = [?e] @ map (case_prod full_entry) (take k ?rest)
           \<or> (k < length ?rest
               \<and> ?loop = [?e] @ map (case_prod full_entry) (take k ?rest)
                     @ [case_prod short_entry (?rest ! k)])"
      and l: "int (length (join separator ?loop)) \<le> ?m"
      and o1: "k < length ?rest \<longrightarrow>
                ?m < int (length (join separator
                      ([?e] @ map (case_prod full_entry) (take k ?rest)
                       @ [case_prod full_entry (?rest ! k)])))"
      and o2: "k < length ?rest
               \<and> ?loop = [?e] @ map (case_prod full_entry) (take k ?rest)
              \<longrightarrow> ?m < int (length (join separator
                      ([?e] @ map (case_prod full_entry) (take k ?rest)
                       @ [case_prod short_entry (?rest ! k)])))"
      by blast
    have whole: "map (case_prod full_entry) (take (Suc k) ?en)
                 = [?e] @ map (case_prod full_entry) (take k ?rest)"
      by (simp add: en)
    have nth: "?en ! Suc k = ?rest ! k"
      by (simp add: en)
    have len: "(Suc k < length search_results) = (k < length ?rest)"
      by (simp add: Cons)
    have o: "?out = join separator ?loop"
      unfolding out step ..
    have b: "0 < Suc k \<and> Suc k \<le> length search_results"
      using k by (simp add: Cons)
    from d show ?thesis
    proof
      assume a: "?loop = [?e] @ map (case_prod full_entry) (take k ?rest)"
      have "?out = join separator (map (case_prod full_entry) (take (Suc k) ?en))"
        unfolding o whole using a by simp
      moreover have "Suc k < length search_results \<longrightarrow>
                        ?m < int (length (join separator
                          (map (case_prod full_entry) (take (Suc k) ?en)
                           @ [case_prod full_entry (?en ! Suc k)])))
                        \<and> ?m < int (length (join separator
                          (map (case_prod full_entry) (take (Suc k) ?en)
                           @ [case_prod short_entry (?en ! Suc k)])))"
        unfolding whole nth len using o1 o2 a by simp
      ultimately show ?thesis
        using l b unfolding o by blast
    next
      assume a: "k < length ?rest
               \<and> ?loop = [?e] @ map (case_prod full_entry) (take k ?rest)
                     @ [case_prod short_entry (?rest ! k)]"
      have "?out = join separator (map (case_prod full_entry) (take (Suc k) ?en)
                             @ [case_prod short_entry (?en ! Suc k)])"
        unfolding o whole nth using a by simp
      moreover have "?m < int (length (join separator
                          (map (case_prod full_entry) (take (Suc k) ?en)
                           @ [case_prod full_entry (?en ! Suc k)])))"
        unfolding whole nth using o1 a by simp
      moreover have "Suc k < length search_results"
        unfolding len using a by simp
      ultimately show ?thesis
        using l b unfolding o by blast
    qed
  qed
  have hd: "hd search_results = r"
    by (simp add: Cons)
  from big big_long big_short fits show ?thesis
    unfolding hd using Cons by blast
qed

lemma format_web_results_examples:
  "format_web_results_for_llm [] 10 = ''No web search results found.''
   \<and> int (length (full_entry 0 (hd example_results))) \<le> 150
   \<and> int (length (format_web_results_for_llm example_results 150)) \<le> 150
   \<and> format_web_results_for_llm example_results 150
       = join separator [full_entry 0 (example_results ! 0), short_entry 1 (example_results ! 1)]
   \<and> 80 < int (length (full_entry 0 (hd example_results)))
   \<and> format_web_results_for_llm example_results 80
       = ''Result 1:\<newline>Source: https://example.org/pump\<newline>Title: Pump care\<newline>Content: Keep the st...''"
proof -
  have ne: "example_results \<noteq> []"
    by (simp add: example_results_def)
  have a: "int (length (full_entry 0 (hd example_results))) \<le> 150"
    by code_simp
  have b: "80 < int (length (full_entry 0 (hd example_results)))"
    by code_simp
  have c: "format_web_results_for_llm example_results 150
       = join separator [full_entry 0 (example_results ! 0), short_entry 1 (example_results ! 1)]"
    by code_simp
  have d: "truncated_entry 80 0 (hd example_results)
       = ''Result 1:\<newline>Source: https://example.org/pump\<newline>Title: Pump care\<newline>Content: Keep the st...''"
    by code_simp
  from format_web_results_cases [of "[]" 10] format_web_results_cases [of example_results 150]
       format_web_results_cases [of example_results 80] ne a b c d
  show ?thesis
    by simp
qed

text \<open>
  The truncated first entry keeps as many characters of the content as the budget leaves
  and then appends the ellipsis: in the example the budget is 80 and the result has 83
  characters (see \<open>truncated_entry_length\<close>).
\<close>

lemma truncated_first_entry_example:
  "length (format_web_results_for_llm example_results 80) = 83"
  by code_simp

lemma strip_replicate: "\<not> py_isspace c \<Longrightarrow> strip (replicate n c) = replicate n c"
  by (simp add: strip_def lstrip_def rstrip_def dropWhile_replicate)

text \<open>
  C8. The claim bounds the result by the budget and has the content of a first entry that
  alone exceeds the budget truncated to fit. At the configured budget of 3000 characters,
  one search result with a content of 3100 characters gives a result of 3003 characters:
  the content is cut to the 2931 characters that the head of the entry leaves, and the
  ellipsis is appended after the cut.
\<close>

theorem format_web_results_exceeds_budget:
  "WEB_SEARCH_RESULT_MAX_CHARS = 3000
   \<and> format_web_results_for_llm [long_result] WEB_SEARCH_RESULT_MAX_CHARS
       = ''Result 1:\<newline>Source: https://example.org/pump\<newline>Title: Pump care\<newline>Content: ''
         @ replicate 2931 CHR ''x'' @ ''...''
   \<and> length (format_web_results_for_llm [long_result] WEB_SEARCH_RESULT_MAX_CHARS) = 3003"
proof -
  have m: "WEB_SEARCH_RESULT_MAX_CHARS = 3000"
    by (simp add: WEB_SEARCH_RESULT_MAX_CHARS_def)
  have x: "\<not> py_isspace CHR ''x''"
    by (simp add: py_isspace_def)
  have c: "result_content long_result = replicate 3100 CHR ''x''"
    using strip_replicate [OF x, of 3100]
    by (simp add: result_content_def long_result_def dict_get_def)
  have one: "str_int (int 0 + 1) = ''1''"
    by code_simp
  have h: "entry_head 0 long_result
           = ''Result 1:\<newline>Source: https://example.org/pump\<newline>Title: Pump care\<newline>Content: ''"
    unfolding entry_head_def one by (simp add: long_result_def dict_get_def)
  have big: "3000 < int (length (full_entry 0 long_result))"
    unfolding full_entry_def h c by simp
  have t: "truncated_entry 3000 0 long_result
           = ''Result 1:\<newline>Source: https://example.org/pump\<newline>Title: Pump care\<newline>Content: ''
             @ replicate 2931 CHR ''x'' @ ''...''"
    unfolding truncated_entry_def h c by (simp add: Let_def)
  have out: "format_web_results_for_llm [long_result] 3000 = truncated_entry 3000 0 long_result"
    using format_web_results_cases [of "[long_result]" 3000] big by simp
  show ?thesis
    unfolding m out t by simp
qed

section \<open>The catalogue as loaded\<close>

text \<open>
  The catalogue is only ever the result of \<open>load_problem_data_dict\<close> or empty. Such a
  catalogue has one entry per name, no empty name and no empty record, and its texts are
  stored stripped, so that the text of a step as \<open>get_next_solution_step\<close> reads it is the
  stored text.
\<close>

lemma dict_set_keys: "fst ` set (dict_set d key v) = insert key (fst ` set d)"
  by (induction d key v rule: dict_set.induct) auto

lemma dict_set_distinct: "distinct (map fst d) \<Longrightarrow> distinct (map fst (dict_set d key v))"
proof (induction d key v rule: dict_set.induct)
  case (1 key v)
  then show ?case by simp
next
  case (2 k w d key v)
  then show ?case
    using dict_set_keys [of d key v] by (auto simp: image_iff)
qed

lemma dict_set_entries: "(k, w) \<in> set (dict_set d key v) \<Longrightarrow> (k, w) = (key, v) \<or> (k, w) \<in> set d"
  by (induction d key v rule: dict_set.induct) (auto split: if_splits)

lemma problem_entry_of_stripped: "(k, v) \<in> set (problem_entry_of row) \<Longrightarrow> strip v = v"
  by (auto simp: problem_entry_of_def strip_idem)

lemma problem_entry_of_nonempty: "problem_entry_of row \<noteq> []"
  by (simp add: problem_entry_of_def)

lemma dict_set_wf:
  assumes "catalog_wf c" and "key \<noteq> []"
  shows "catalog_wf (dict_set c key (problem_entry_of row))"
proof -
  have "distinct (map fst (dict_set c key (problem_entry_of row)))"
    using assms(1) by (simp add: catalog_wf_def dict_set_distinct)
  moreover have "k \<noteq> [] \<and> d \<noteq> [] \<and> (\<forall>(a, v) \<in> set d. strip v = v)"
    if "(k, d) \<in> set (dict_set c key (problem_entry_of row))" for k d
    using dict_set_entries [OF that] assms problem_entry_of_stripped [of _ _ row]
      problem_entry_of_nonempty [of row]
    by (auto simp: catalog_wf_def)
  ultimately show ?thesis
    unfolding catalog_wf_def by blast
qed

lemma load_rows_wf: "catalog_wf acc \<Longrightarrow> catalog_wf (load_rows rows acc)"
proof (induction rows arbitrary: acc)
  case Nil
  then show ?case by simp
next
  case (Cons row rows)
  show ?case
    using Cons.IH [OF Cons.prems]
      Cons.IH [OF dict_set_wf [OF Cons.prems, of "strip (dict_get row ''problem'' [])" row]]
    by (simp add: Let_def)
qed

lemma load_problem_data_dict_wf: "catalog_wf (load_problem_data_dict table)"
proof -
  have e: "catalog_wf []"
    by (simp add: catalog_wf_def)
  show ?thesis
    using e load_rows_wf [OF e]
    by (simp add: load_problem_data_dict_def split: option.splits prod.splits)
qed

lemma catalog_wf_no_empty_key: "catalog_wf c \<Longrightarrow> [] \<notin> fst ` set c"
  by (auto simp: catalog_wf_def)

lemma catalog_wf_entry:
  assumes "catalog_wf c" and "map_of c name = Some d"
  shows "d \<noteq> []" and "step_text d i = dict_get d (step_key i) []"
proof -
  have m: "(name, d) \<in> set c"
    using assms(2) by (rule map_of_SomeD)
  with assms(1) show "d \<noteq> []"
    by (auto simp: catalog_wf_def)
  show "step_text d i = dict_get d (step_key i) []"
  proof (cases "map_of d (step_key i)")
    case None
    then show ?thesis
      by (simp add: step_text_def dict_get_def strip_def lstrip_def rstrip_def)
  next
    case (Some v)
    then have "(step_key i, v) \<in> set d"
      by (rule map_of_SomeD)
    with m assms(1) have "strip v = v"
      by (auto simp: catalog_wf_def)
    with Some show ?thesis
      by (simp add: step_text_def dict_get_def)
  qed
qed

lemma example_catalog_loaded:
  "load_problem_data_dict
     (Some ([''problem'', ''possible_cause'', ''solution_step_1'', ''solution_step_2''],
            [[(''problem'', ''pump overheating''), (''possible_cause'', ''low coolant''),
              (''solution_step_1'', ''Check coolant level''),
              (''solution_step_2'', ''Inspect impeller'')],
             [(''problem'', ''Engine will not start''), (''possible_cause'', []),
              (''solution_step_1'', []), (''solution_step_2'', ''Check the fuel supply'')]]))
   = example_catalog"
  by code_simp

section \<open>A negated solved wording in a turn\<close>

text \<open>
  On "it's not fixed yet" the not-solved classifier is false as well, since it asks the
  solved classifier first; a turn of an active conversation with that prompt takes the
  strategy "solved".
\<close>

lemma not_fixed_yet_is_taken_as_solved:
  "is_problem_not_solved ''it's not fixed yet'' = False
   \<and> response_strategy (select_strategy (example_globals (answering_chain ''x'') True)
        (example_request ''it's not fixed yet'' (pump_at_step 1) False)) = ''solved''"
  by code_simp

end
